theory Spec2Isabelle
  imports Complex_Main "HOL-Library.List_Lexorder"
begin

section \<open>Numbers, arrays and errors\<close>

text \<open>
  The collate layer of \<^verbatim>\<open>mlreco/iotools/collates.py\<close> works on numpy arrays. Array
  elements are modelled as exact rationals: rounding of floating-point dtypes and NaN are
  outside the model. A two-dimensional array carries its number of columns explicitly, so
  that an array with no rows still has a shape.
\<close>

datatype error =
    AssertionError
  | IndexError
  | ValueError
  | KeyError
  | EmptyBatchError
  | SchemaError
  | NotModelled

text \<open>
  \<open>AssertionError\<close>, \<open>IndexError\<close>, \<open>ValueError\<close> and \<open>KeyError\<close> are the Python
  exceptions the source can raise. \<open>EmptyBatchError\<close> and \<open>SchemaError\<close> are names of the
  specification's error taxonomy; the source defines no exception class of its own and no
  function below returns them. \<open>NotModelled\<close> marks inputs whose behaviour depends on
  Python objects this model does not describe.
\<close>

datatype arr2 = Arr2 (ncols: nat) (rows: "rat list list")

definition wf_arr2 :: "arr2 \<Rightarrow> bool" where
  "wf_arr2 a = list_all (\<lambda>r. length r = ncols a) (rows a)"

text \<open>Python's \<^verbatim>\<open>int(x)\<close> on a float truncates toward zero.\<close>

definition py_int :: "rat \<Rightarrow> int" where
  "py_int x = (if 0 \<le> x then \<lfloor>x\<rfloor> else \<lceil>x\<rceil>)"

text \<open>
  Storing a number into an \<^verbatim>\<open>np.int32\<close> array truncates it toward zero and keeps the
  low 32 bits as a signed value (for a floating-point source the out-of-range case is
  undefined in C; the model follows the integer case there).
\<close>

definition to_int32 :: "rat \<Rightarrow> int" where
  "to_int32 x = (py_int x + 2 ^ 31) mod 2 ^ 32 - 2 ^ 31"

section \<open>VolumeBoundaries\<close>

text \<open>
  One entry of the \<^verbatim>\<open>boundaries\<close> configuration: the string \<^verbatim>\<open>'None'\<close>, Python's
  \<^verbatim>\<open>None\<close>, a list of cut positions, or any other object.
\<close>

datatype boundary = NoneString | PyNone | CutList "rat list" | OtherObject

record volume_boundaries =
  vdim :: nat
  boundaries :: "boundary list"
  combo :: "nat list list"
  shifts :: "rat list list"

text \<open>
  The sanity loop of \<^verbatim>\<open>__init__\<close>. \<^verbatim>\<open>self.boundaries\<close> is the caller's list object
  itself, so the loop rewrites the caller's list in place: the function returns the list as
  it stands when the loop ends, and whether every assertion held. When an assertion fails
  the entries before it have already been rewritten.
\<close>

fun sanity_check :: "boundary list \<Rightarrow> boundary list \<times> bool" where
  "sanity_check [] = ([], True)"
| "sanity_check (NoneString # bs) =
     (case sanity_check bs of (bs', ok) \<Rightarrow> (PyNone # bs', ok))"
| "sanity_check (PyNone # bs) =
     (case sanity_check bs of (bs', ok) \<Rightarrow> (PyNone # bs', ok))"
| "sanity_check (CutList cs # bs) =
     (if length cs > 0
      then (case sanity_check bs of (bs', ok) \<Rightarrow> (CutList (sort cs) # bs', ok))
      else (CutList cs # bs, False))"
| "sanity_check (OtherObject # bs) = (OtherObject # bs, False)"

text \<open>
  After the sanity loop every entry of \<^verbatim>\<open>self.boundaries\<close> is \<^verbatim>\<open>None\<close> or a list, and the
  rest of the class only asks whether an entry \<^verbatim>\<open>is None\<close> and otherwise reads it as a
  list: \<open>cuts_of\<close> is that reading.
\<close>

definition cuts_of :: "boundary \<Rightarrow> rat list" where
  "cuts_of b = (case b of CutList cs \<Rightarrow> cs | _ \<Rightarrow> [])"

definition n_boundaries :: "boundary \<Rightarrow> nat" where
  "n_boundaries b = (if b \<noteq> PyNone then length (cuts_of b) else 0)"

text \<open>
  \<^verbatim>\<open>np.array(np.meshgrid(*all_index)).T.reshape(-1, dim)\<close>, for index ranges of sizes
  \<open>ns\<close>. \<^verbatim>\<open>meshgrid\<close> uses \<^verbatim>\<open>'xy'\<close> indexing, which swaps the first two axes: the stacked
  array has shape \<open>(dim, n\<^sub>1, n\<^sub>0, n\<^sub>2, \<dots>)\<close>, its transpose \<open>(\<dots>, n\<^sub>2, n\<^sub>0, n\<^sub>1, dim)\<close>, and the
  row-major reshape enumerates the index tuples with dimension \<open>dim - 1\<close> slowest, then
  \<open>dim - 2\<close>, and so on down to \<open>2\<close>, then \<open>0\<close>, and dimension \<open>1\<close> fastest. Each row lists the indices
  in the order of the dimensions.
\<close>

definition meshgrid_combo :: "nat list \<Rightarrow> nat list list" where
  "meshgrid_combo ns =
     (let d = length ns;
          order = rev (drop 2 ns) @ take 2 ns
      in map (\<lambda>t. drop (d - 2) t @ rev (take (d - 2) t))
             (product_lists (map (\<lambda>n. [0..<n]) order)))"

definition dim_shifts :: "boundary \<Rightarrow> rat list" where
  "dim_shifts b =
     (if b = PyNone then [0]
      else map (\<lambda>i. if i > 0 then cuts_of b ! (i - 1) else 0) [0..<length (cuts_of b)]
           @ [last (cuts_of b)])"

text \<open>
  The constructor. It returns the caller's list after the call together with the new
  object or the exception. With no dimension at all, \<^verbatim>\<open>reshape(-1, 0)\<close> of the empty
  meshgrid raises \<^verbatim>\<open>ValueError\<close>.
\<close>

definition VolumeBoundaries_init ::
    "boundary list \<Rightarrow> boundary list \<times> (error + volume_boundaries)" where
  "VolumeBoundaries_init definitions =
     (case sanity_check definitions of
        (bs, ok) \<Rightarrow>
          if \<not> ok then (bs, Inl AssertionError)
          else if length definitions = 0 then (bs, Inl ValueError)
          else (bs, Inr \<lparr> vdim = length definitions,
                          boundaries = bs,
                          combo = meshgrid_combo (map (\<lambda>b. n_boundaries b + 1) bs),
                          shifts = map dim_shifts bs \<rparr>))"

definition num_volumes :: "volume_boundaries \<Rightarrow> nat" where
  "num_volumes vb = length (combo vb)"

definition virtual_batch_ids :: "volume_boundaries \<Rightarrow> int \<Rightarrow> int list" where
  "virtual_batch_ids vb entry =
     map (\<lambda>k. int k + entry * int (num_volumes vb)) [0..<length (combo vb)]"

text \<open>
  \<^verbatim>\<open>translate\<close> and \<^verbatim>\<open>untranslate\<close>. The array may have any number of leading axes in
  the source; they are flattened here, so \<open>rows\<close> holds the coordinate vectors and
  \<open>ncols\<close> is \<^verbatim>\<open>voxels.shape[-1]\<close>. The loop over \<open>n\<close> updates column \<open>n\<close> of the copy.
\<close>

definition add_to_column :: "nat \<Rightarrow> rat \<Rightarrow> arr2 \<Rightarrow> arr2" where
  "add_to_column n s a = Arr2 (ncols a) (map (\<lambda>r. r[n := r ! n + s]) (rows a))"

definition volume_shift :: "volume_boundaries \<Rightarrow> nat list \<Rightarrow> nat \<Rightarrow> int" where
  "volume_shift vb c n = py_int (shifts vb ! n ! (c ! n))"

definition translate :: "volume_boundaries \<Rightarrow> arr2 \<Rightarrow> int \<Rightarrow> error + arr2" where
  "translate vb voxels volume =
     (if \<not> (volume \<ge> 0 \<and> volume < int (num_volumes vb)) then Inl AssertionError
      else if \<not> (ncols voxels = vdim vb) then Inl AssertionError
      else Inr (fold (\<lambda>n new_voxels.
                        add_to_column n (of_int (volume_shift vb (combo vb ! nat volume) n))
                          new_voxels)
                  [0..<vdim vb] voxels))"

definition untranslate :: "volume_boundaries \<Rightarrow> arr2 \<Rightarrow> int \<Rightarrow> error + arr2" where
  "untranslate vb voxels volume =
     (if \<not> (volume \<ge> 0 \<and> volume < int (num_volumes vb)) then Inl AssertionError
      else if \<not> (ncols voxels = vdim vb) then Inl AssertionError
      else Inr (fold (\<lambda>n new_voxels.
                        add_to_column n (- of_int (volume_shift vb (combo vb ! nat volume) n))
                          new_voxels)
                  [0..<vdim vb] voxels))"

subsection \<open>split\<close>

text \<open>
  \<^verbatim>\<open>all_boundaries\<close>: for each dimension the list of boolean masks over the rows, one mask
  per cut (\<^verbatim>\<open>coords[:, n] < cut\<close>) and a last one (\<^verbatim>\<open>coords[:, n] >= last cut\<close>); a
  dimension without boundary has the single mask of ones.
\<close>

definition dim_boundaries :: "boundary \<Rightarrow> nat \<Rightarrow> rat list list \<Rightarrow> bool list list" where
  "dim_boundaries b n coords =
     (if b = PyNone then [replicate (length coords) True]
      else map (\<lambda>i. map (\<lambda>r. r ! n < cuts_of b ! i) coords) [0..<length (cuts_of b)]
           @ [map (\<lambda>r. r ! n \<ge> last (cuts_of b)) coords])"

definition all_boundaries :: "volume_boundaries \<Rightarrow> rat list list \<Rightarrow> bool list list list" where
  "all_boundaries vb coords =
     map (\<lambda>n. dim_boundaries (boundaries vb ! n) n coords) [0..<vdim vb]"

text \<open>The mask of one volume \<open>c\<close>: the conjunction of its masks in every dimension.\<close>

definition volume_mask :: "volume_boundaries \<Rightarrow> bool list list list \<Rightarrow> nat list \<Rightarrow> bool list" where
  "volume_mask vb ab c =
     fold (\<lambda>n m. map2 (\<and>) m (ab ! n ! (c ! n))) [1..<vdim vb] (ab ! 0 ! (c ! 0))"

text \<open>
  One pass of the loop over volumes: the rows under the mask get their virtual batch id
  and have the volume's shift subtracted in every dimension.
\<close>

definition sub_in_row :: "nat \<Rightarrow> rat \<Rightarrow> rat list \<Rightarrow> rat list" where
  "sub_in_row n s r = r[n := r ! n - s]"

definition shift_rows :: "volume_boundaries \<Rightarrow> nat list \<Rightarrow> bool list \<Rightarrow> rat list list \<Rightarrow> rat list list" where
  "shift_rows vb c m new_coords =
     fold (\<lambda>n nc. map2 (\<lambda>r sel. if sel then sub_in_row n (of_int (volume_shift vb c n)) r else r)
                    nc m)
       [0..<vdim vb] new_coords"

definition split_step ::
    "volume_boundaries \<Rightarrow> rat list \<Rightarrow> bool list list list \<Rightarrow> nat \<times> nat list
       \<Rightarrow> int list \<times> rat list list \<Rightarrow> int list \<times> rat list list" where
  "split_step vb batch_ids ab ic st =
     (case ic of (idx, c) \<Rightarrow>
        case st of (vids, new_coords) \<Rightarrow>
          let m = volume_mask vb ab c
          in (map2 (\<lambda>(v, b) sel.
                      if sel then to_int32 (of_nat idx + b * of_nat (num_volumes vb)) else v)
                (zip vids batch_ids) m,
              shift_rows vb c m new_coords))"

text \<open>
  \<^verbatim>\<open>np.lexsort(keys)\<close> for a two-dimensional \<open>keys\<close> array: starting from the indices in
  order, a stable sort by each key row in turn, first row first, so that the last row is
  the primary key.
\<close>

definition lexsort :: "arr2 \<Rightarrow> nat list" where
  "lexsort keys = fold (\<lambda>k p. sort_key (\<lambda>i. k ! i) p) (rows keys) [0..<ncols keys]"

definition transpose_arr :: "arr2 \<Rightarrow> arr2" where
  "transpose_arr a = Arr2 (length (rows a)) (map (\<lambda>j. map (\<lambda>r. r ! j) (rows a)) [0..<ncols a])"

definition select_rows :: "arr2 \<Rightarrow> nat list \<Rightarrow> arr2" where
  "select_rows a idx = Arr2 (ncols a) (map (\<lambda>i. rows a ! i) idx)"

text \<open>
  The state of \<^verbatim>\<open>virtual_batch_ids\<close> and \<^verbatim>\<open>new_coords\<close> after the loop over all volumes,
  and the permutation computed from the assembled array.
\<close>

definition split_loop :: "volume_boundaries \<Rightarrow> arr2 \<Rightarrow> int list \<times> rat list list" where
  "split_loop vb voxels =
     (let batch_ids = map hd (rows voxels);
          coords = map tl (rows voxels);
          ab = all_boundaries vb coords
      in fold (split_step vb batch_ids ab) (enumerate 0 (combo vb))
           (replicate (length coords) 0, coords))"

definition split_perm :: "nat \<Rightarrow> arr2 \<Rightarrow> nat list" where
  "split_perm d new_voxels =
     lexsort (select_rows (transpose_arr new_voxels) ([1..<d + 1] @ [0]))"

text \<open>
  \<^verbatim>\<open>split\<close>. Taking column 0 of an array without columns raises \<^verbatim>\<open>IndexError\<close>; the
  assertion compares \<^verbatim>\<open>self.dim\<close> with the number of coordinate columns.
\<close>

definition split :: "volume_boundaries \<Rightarrow> arr2 \<Rightarrow> error + (arr2 \<times> nat list)" where
  "split vb voxels =
     (if ncols voxels = 0 then Inl IndexError
      else if \<not> (vdim vb = ncols voxels - 1) then Inl AssertionError
      else
        case split_loop vb voxels of
          (vids, new_coords) \<Rightarrow>
            let new_voxels = Arr2 (1 + vdim vb) (map2 (\<lambda>v r. of_int v # r) vids new_coords)
            in Inr (new_voxels, split_perm (vdim vb) new_voxels))"

section \<open>CollateSparse\<close>

text \<open>
  The value a parser stored under a key of a sample: a one-dimensional array, a
  two-dimensional array, a tuple (coordinates, features) of two-dimensional arrays, a list
  of such tuples (multi-scale labels), or any other object, identified by a tag. A sample
  is a dictionary; the association list keeps the order of its keys, which are distinct.
\<close>

datatype pyvalue =
    Nd1 "rat list"
  | Nd2 arr2
  | Pair arr2 arr2
  | Multi "(arr2 \<times> arr2) list"
  | Opaque nat

type_synonym sample = "(string \<times> pyvalue) list"

datatype batched = Batched arr2 | BatchedList "arr2 list" | Collected "pyvalue list"

definition bind_err :: "error + 'a \<Rightarrow> ('a \<Rightarrow> error + 'b) \<Rightarrow> error + 'b" where
  "bind_err m f = (case m of Inl e \<Rightarrow> Inl e | Inr x \<Rightarrow> f x)"

text \<open>A list comprehension whose body may raise: the first exception ends it.\<close>

fun map_err :: "('a \<Rightarrow> error + 'b) \<Rightarrow> 'a list \<Rightarrow> error + 'b list" where
  "map_err f [] = Inr []"
| "map_err f (x # xs) =
     (case f x of
        Inl e \<Rightarrow> Inl e
      | Inr y \<Rightarrow> (case map_err f xs of Inl e \<Rightarrow> Inl e | Inr ys \<Rightarrow> Inr (y # ys)))"

definition getitem :: "sample \<Rightarrow> string \<Rightarrow> error + pyvalue" where
  "getitem smp key = (case map_of smp key of None \<Rightarrow> Inl KeyError | Some v \<Rightarrow> Inr v)"

text \<open>
  The numpy functions the collate function calls. \<^verbatim>\<open>np.concatenate\<close> raises
  \<^verbatim>\<open>ValueError\<close> on an empty list and when the arrays disagree on an axis other than the
  one they are joined along; indexing with an index array raises \<^verbatim>\<open>IndexError\<close> for an
  index past the end.
\<close>

definition np_full :: "nat \<Rightarrow> rat \<Rightarrow> arr2" where
  "np_full n v = Arr2 1 (replicate n [v])"

definition expand_dims1 :: "rat list \<Rightarrow> arr2" where
  "expand_dims1 xs = Arr2 1 (map (\<lambda>x. [x]) xs)"

fun concat_axis1 :: "arr2 list \<Rightarrow> error + arr2" where
  "concat_axis1 [] = Inl ValueError"
| "concat_axis1 (a # as) =
     (if list_ex (\<lambda>b. length (rows b) \<noteq> length (rows a)) as then Inl ValueError
      else Inr (Arr2 (sum_list (map ncols (a # as)))
                  (map (\<lambda>i. concat (map (\<lambda>b. rows b ! i) (a # as))) [0..<length (rows a)])))"

fun concat_axis0 :: "arr2 list \<Rightarrow> error + arr2" where
  "concat_axis0 [] = Inl ValueError"
| "concat_axis0 (a # as) =
     (if list_ex (\<lambda>b. ncols b \<noteq> ncols a) as then Inl ValueError
      else Inr (Arr2 (ncols a) (concat (map rows (a # as)))))"

definition index_rows :: "arr2 \<Rightarrow> nat list \<Rightarrow> error + arr2" where
  "index_rows a idx =
     (if list_ex (\<lambda>i. i \<ge> length (rows a)) idx then Inl IndexError
      else Inr (select_rows a idx))"

definition slice_cols :: "arr2 \<Rightarrow> nat \<Rightarrow> arr2" where
  "slice_cols a k = Arr2 (min k (ncols a)) (map (take k) (rows a))"

definition assign_cols :: "arr2 \<Rightarrow> nat \<Rightarrow> arr2 \<Rightarrow> arr2" where
  "assign_cols a k new = Arr2 (ncols a) (map2 (\<lambda>r nr. nr @ drop k r) (rows a) (rows new))"

text \<open>
  Each branch of the loop over keys. A sample whose value is not of the kind the branch
  was chosen for is followed only where both are arrays; for the other mixtures the result
  depends on how numpy converts nested Python objects and is \<open>NotModelled\<close>. In the branch
  for one-dimensional arrays a two-dimensional value becomes three-dimensional under
  \<^verbatim>\<open>np.expand_dims\<close>, and in the branch for two-dimensional arrays a one-dimensional value
  stays one-dimensional: in both cases \<^verbatim>\<open>np.concatenate\<close> is given arrays of different
  ranks and raises \<^verbatim>\<open>ValueError\<close>.
\<close>

definition coords_of :: "pyvalue \<Rightarrow> error + arr2" where
  "coords_of v = (case v of Pair c f \<Rightarrow> Inr c | _ \<Rightarrow> Inl NotModelled)"

definition features_of :: "pyvalue \<Rightarrow> error + arr2" where
  "features_of v = (case v of Pair c f \<Rightarrow> Inr f | _ \<Rightarrow> Inl NotModelled)"

definition collate_particles_label ::
    "volume_boundaries option \<Rightarrow> sample list \<Rightarrow> string \<Rightarrow> error + batched" where
  "collate_particles_label vb batch key =
     bind_err (map_err (\<lambda>smp. bind_err (getitem smp key) coords_of) batch) (\<lambda>coords.
     bind_err (map_err (\<lambda>smp. bind_err (getitem smp key) features_of) batch) (\<lambda>features.
     bind_err (map_err (\<lambda>bidx.
                  concat_axis1 [np_full (length (rows (coords ! bidx))) (of_nat bidx),
                                coords ! bidx, features ! bidx])
                [0..<length batch]) (\<lambda>coords_minibatch.
     let d = ncols (coords ! 0) in
     bind_err (concat_axis0 coords_minibatch) (\<lambda>coords.
     case vb of
       None \<Rightarrow> Inr (Batched coords)
     | Some vb \<Rightarrow>
         bind_err (split vb (slice_cols coords (d + 1))) (\<lambda>(new_voxels, perm).
         bind_err (index_rows (assign_cols coords (d + 1) new_voxels) perm) (\<lambda>coords.
         Inr (Batched coords)))))))"

definition collate_pair ::
    "volume_boundaries option \<Rightarrow> sample list \<Rightarrow> string \<Rightarrow> error + batched" where
  "collate_pair vb batch key =
     bind_err (map_err (\<lambda>(batch_id, smp).
                  bind_err (getitem smp key) (\<lambda>v.
                  bind_err (coords_of v) (\<lambda>c.
                  concat_axis1 [np_full (length (rows c)) (of_nat batch_id), c])))
                (enumerate 0 batch)) (\<lambda>blocks.
     bind_err (concat_axis0 blocks) (\<lambda>voxels.
     bind_err (map_err (\<lambda>smp. bind_err (getitem smp key) features_of) batch) (\<lambda>feats.
     bind_err (concat_axis0 feats) (\<lambda>data.
     case vb of
       None \<Rightarrow> bind_err (concat_axis1 [voxels, data]) (\<lambda>r. Inr (Batched r))
     | Some vb \<Rightarrow>
         bind_err (split vb voxels) (\<lambda>(new_voxels, perm).
         bind_err (index_rows new_voxels perm) (\<lambda>voxels.
         bind_err (index_rows data perm) (\<lambda>data.
         bind_err (concat_axis1 [voxels, data]) (\<lambda>r. Inr (Batched r)))))))))"

definition collate_1d :: "sample list \<Rightarrow> string \<Rightarrow> error + batched" where
  "collate_1d batch key =
     bind_err (map_err (\<lambda>(batch_id, smp).
                  bind_err (getitem smp key) (\<lambda>v.
                  case v of
                    Nd1 xs \<Rightarrow> concat_axis1 [np_full (length xs) (of_nat batch_id), expand_dims1 xs]
                  | Nd2 a \<Rightarrow> Inl ValueError
                  | _ \<Rightarrow> Inl NotModelled))
                (enumerate 0 batch)) (\<lambda>blocks.
     bind_err (concat_axis0 blocks) (\<lambda>r. Inr (Batched r)))"

definition collate_2d :: "sample list \<Rightarrow> string \<Rightarrow> error + batched" where
  "collate_2d batch key =
     bind_err (map_err (\<lambda>(batch_id, smp).
                  bind_err (getitem smp key) (\<lambda>v.
                  case v of
                    Nd2 a \<Rightarrow> concat_axis1 [np_full (length (rows a)) (of_nat batch_id), a]
                  | Nd1 xs \<Rightarrow> Inl ValueError
                  | _ \<Rightarrow> Inl NotModelled))
                (enumerate 0 batch)) (\<lambda>blocks.
     bind_err (concat_axis0 blocks) (\<lambda>r. Inr (Batched r)))"

definition depth_item :: "pyvalue \<Rightarrow> nat \<Rightarrow> error + (arr2 \<times> arr2)" where
  "depth_item v depth =
     (case v of
        Multi l \<Rightarrow> if depth < length l then Inr (l ! depth) else Inl IndexError
      | _ \<Rightarrow> Inl NotModelled)"

definition collate_multi :: "sample list \<Rightarrow> string \<Rightarrow> nat \<Rightarrow> error + batched" where
  "collate_multi batch key n_depths =
     bind_err (map_err (\<lambda>depth.
        bind_err (map_err (\<lambda>(batch_id, smp).
                     bind_err (getitem smp key) (\<lambda>v.
                     bind_err (depth_item v depth) (\<lambda>(c, f).
                     concat_axis1 [np_full (length (rows c)) (of_nat batch_id), c])))
                   (enumerate 0 batch)) (\<lambda>blocks.
        bind_err (concat_axis0 blocks) (\<lambda>voxels.
        bind_err (map_err (\<lambda>smp.
                     bind_err (getitem smp key) (\<lambda>v.
                     bind_err (depth_item v depth) (\<lambda>(c, f). Inr f)))
                   batch) (\<lambda>feats.
        bind_err (concat_axis0 feats) (\<lambda>data.
        concat_axis1 [voxels, data])))))
       [0..<n_depths]) (\<lambda>rs. Inr (BatchedList rs))"

definition collate_key ::
    "volume_boundaries option \<Rightarrow> sample list \<Rightarrow> string \<Rightarrow> pyvalue \<Rightarrow> error + batched" where
  "collate_key vb batch key v0 =
     (if key = ''particles_label'' then collate_particles_label vb batch key
      else case v0 of
        Pair c f \<Rightarrow> collate_pair vb batch key
      | Nd1 xs \<Rightarrow> collate_1d batch key
      | Nd2 a \<Rightarrow> collate_2d batch key
      | Multi l \<Rightarrow>
          if length l > 0 then collate_multi batch key (length l)
          else bind_err (map_err (\<lambda>smp. getitem smp key) batch) (\<lambda>vs. Inr (Collected vs))
      | Opaque t \<Rightarrow>
          bind_err (map_err (\<lambda>smp. getitem smp key) batch) (\<lambda>vs. Inr (Collected vs)))"

definition collate_keys ::
    "volume_boundaries option \<Rightarrow> sample list \<Rightarrow> error + (string \<times> batched) list" where
  "collate_keys vb batch =
     (case batch of
        [] \<Rightarrow> Inl IndexError
      | first # _ \<Rightarrow>
          map_err (\<lambda>(key, v0). bind_err (collate_key vb batch key v0) (\<lambda>r. Inr (key, r)))
            first)"

text \<open>
  \<^verbatim>\<open>CollateSparse(batch, **kwargs)\<close>. The second argument is the value of
  \<^verbatim>\<open>kwargs['boundaries']\<close> when that key is present. The constructor of
  \<^verbatim>\<open>VolumeBoundaries\<close> works on the caller's list, so the function returns that list as it
  is after the call, next to the result or the exception. No statement of the function
  writes to \<^verbatim>\<open>batch\<close> or to an array reached from it: every array it updates in place
  is the fresh result of \<^verbatim>\<open>np.concatenate\<close> or of a copy. The import of MinkowskiEngine
  is taken to succeed.
\<close>

definition CollateSparse ::
    "sample list \<Rightarrow> boundary list option
       \<Rightarrow> boundary list option \<times> (error + (string \<times> batched) list)" where
  "CollateSparse batch kw_boundaries =
     (case kw_boundaries of
        None \<Rightarrow> (None, collate_keys None batch)
      | Some definitions \<Rightarrow>
          (case VolumeBoundaries_init definitions of
             (definitions', Inl e) \<Rightarrow> (Some definitions', Inl e)
           | (definitions', Inr vb) \<Rightarrow> (Some definitions', collate_keys (Some vb) batch)))"

section \<open>Auxiliary notions for the proofs\<close>

text \<open>
  What the sanity loop of the constructor leaves in place of an entry it accepts, and
  which entries its assertion accepts.
\<close>

definition rewritten :: "boundary \<Rightarrow> boundary" where
  "rewritten b =
     (case b of NoneString \<Rightarrow> PyNone | CutList cs \<Rightarrow> CutList (sort cs) | _ \<Rightarrow> b)"

definition accepted :: "boundary \<Rightarrow> bool" where
  "accepted b =
     (case b of
        NoneString \<Rightarrow> True
      | PyNone \<Rightarrow> True
      | CutList cs \<Rightarrow> cs \<noteq> []
      | OtherObject \<Rightarrow> False)"

text \<open>
  The effect of one volume on a single row of coordinates: the inner loop over the
  dimensions of \<^verbatim>\<open>split\<close>, seen from one row under the mask.
\<close>

definition shift_row :: "volume_boundaries \<Rightarrow> nat list \<Rightarrow> rat list \<Rightarrow> rat list" where
  "shift_row vb c r =
     fold (\<lambda>n r. sub_in_row n (of_int (volume_shift vb c n)) r) [0..<vdim vb] r"

text \<open>
  The loop over the volumes of \<^verbatim>\<open>split\<close>, seen from row \<open>i\<close>: the virtual batch id and
  the coordinates of that row after the volumes \<open>ics\<close> (pairs of index and bin tuple) have
  been processed, given the masks \<open>ab\<close> and the original batch id \<open>b\<close> of the row.
\<close>

definition row_vid ::
    "volume_boundaries \<Rightarrow> bool list list list \<Rightarrow> rat \<Rightarrow> nat \<Rightarrow> (nat \<times> nat list) list
       \<Rightarrow> int \<Rightarrow> int" where
  "row_vid vb ab b i ics v =
     fold (\<lambda>ic v. if volume_mask vb ab (snd ic) ! i
                   then to_int32 (of_nat (fst ic) + b * of_nat (num_volumes vb)) else v)
       ics v"

definition row_coords ::
    "volume_boundaries \<Rightarrow> bool list list list \<Rightarrow> nat \<Rightarrow> (nat \<times> nat list) list
       \<Rightarrow> rat list \<Rightarrow> rat list" where
  "row_coords vb ab i ics r =
     fold (\<lambda>ic r. if volume_mask vb ab (snd ic) ! i then shift_row vb (snd ic) r else r)
       ics r"

section \<open>Evaluation helpers\<close>

lemma floor_rat_numeral [simp]:
  "\<lfloor>numeral a / numeral b :: rat\<rfloor> = numeral a div numeral b"
  by (metis floor_divide_of_int_eq of_int_numeral)

section \<open>The two-volume scenario\<close>

lemma init_one_cut_2d:
  "VolumeBoundaries_init [CutList [10], PyNone] =
     ([CutList [10], PyNone],
      Inr \<lparr> vdim = 2, boundaries = [CutList [10], PyNone],
            combo = [[0, 0], [1, 0]], shifts = [[0, 10], [0]] \<rparr>)"
  by (simp add: VolumeBoundaries_init_def meshgrid_combo_def n_boundaries_def cuts_of_def
        dim_shifts_def upt_conv_Cons)

lemma split_one_cut_2d:
  "\<exists>perm. split \<lparr> vdim = 2, boundaries = [CutList [10], PyNone],
                  combo = [[0, 0], [1, 0]], shifts = [[0, 10], [0]] \<rparr>
             (Arr2 3 [[0, 5, y0], [0, 12, y1], [0, 9, y2],
                      [1, 1, y3], [1, 20, y4], [1, 11, y5]])
         = Inr (Arr2 3 [[0, 5, y0], [1, 2, y1], [0, 9, y2],
                        [2, 1, y3], [3, 10, y4], [3, 1, y5]], perm)"
  by (simp add: split_def split_loop_def all_boundaries_def dim_boundaries_def cuts_of_def
        split_step_def volume_mask_def shift_rows_def sub_in_row_def volume_shift_def
        num_volumes_def to_int32_def py_int_def upt_conv_Cons enumerate_eq_zip Let_def)

text \<open>
  Claim C4. With boundaries \<^verbatim>\<open>[[10.0], None]\<close> there are two volumes. Two events with three
  voxels each, at x-coordinates 5, 12, 9 and 1, 20, 11 (and any y-coordinates), are split so
  that x below 10 stays in volume 0 unshifted and x from 10 on goes to volume 1 shifted by
  10: 12 becomes 2 and 20 becomes 10. The rows of event 0 get the virtual batch ids 0 and 1,
  those of event 1 the ids 2 and 3, which are \<^verbatim>\<open>virtual_batch_ids(0)\<close> and
  \<^verbatim>\<open>virtual_batch_ids(1)\<close>.
\<close>

theorem scenario_two_volumes:
  "\<exists>vb. VolumeBoundaries_init [CutList [10], PyNone] = ([CutList [10], PyNone], Inr vb)
      \<and> num_volumes vb = 2
      \<and> (\<exists>perm. split vb (Arr2 3 [[0, 5, y0], [0, 12, y1], [0, 9, y2],
                                   [1, 1, y3], [1, 20, y4], [1, 11, y5]])
               = Inr (Arr2 3 [[0, 5, y0], [1, 2, y1], [0, 9, y2],
                              [2, 1, y3], [3, 10, y4], [3, 1, y5]], perm))
      \<and> virtual_batch_ids vb 0 = [0, 1]
      \<and> virtual_batch_ids vb 1 = [2, 3]"
proof -
  let ?vb = "\<lparr> vdim = 2, boundaries = [CutList [10], PyNone],
               combo = [[0, 0], [1, 0]], shifts = [[0, 10], [0]] \<rparr>"
  have "num_volumes ?vb = 2"
    by (simp add: num_volumes_def)
  moreover have "virtual_batch_ids ?vb 0 = [0, 1]" "virtual_batch_ids ?vb 1 = [2, 3]"
    by (simp_all add: virtual_batch_ids_def num_volumes_def upt_conv_Cons)
  ultimately show ?thesis
    using init_one_cut_2d split_one_cut_2d by blast
qed

section \<open>Exceptions of CollateSparse\<close>

text \<open>
  Claim C7, as stated, fails: with an empty batch and no boundaries the function raises
  Python's \<^verbatim>\<open>IndexError\<close> at \<^verbatim>\<open>batch[0]\<close>, as its docstring announces, not an
  \<open>EmptyBatchError\<close>.
\<close>

theorem CollateSparse_empty_batch_counterexample:
  "snd (CollateSparse [] None) = Inl IndexError
   \<and> snd (CollateSparse [] None) \<noteq> Inl EmptyBatchError"
  by (simp add: CollateSparse_def collate_keys_def)

text \<open>
  Claim C7, amended. With an empty batch list \<^verbatim>\<open>CollateSparse\<close> raises \<^verbatim>\<open>IndexError\<close>
  when no boundaries are configured or when the configured boundaries are accepted by the
  constructor of \<^verbatim>\<open>VolumeBoundaries\<close>; when the constructor raises, its exception
  comes first.
\<close>

theorem CollateSparse_empty_batch:
  "snd (CollateSparse [] None) = Inl IndexError
   \<and> snd (CollateSparse [] (Some definitions)) =
       (case snd (VolumeBoundaries_init definitions) of
          Inl e \<Rightarrow> Inl e
        | Inr vb \<Rightarrow> Inl IndexError)"
  by (simp add: CollateSparse_def collate_keys_def split: prod.splits sum.splits)

lemma collate_keys_1d_2d:
  "collate_keys vb [[(''x'', Nd1 xs)], [(''x'', Nd2 a)]] = Inl ValueError"
  by (simp add: collate_keys_def collate_key_def collate_1d_def bind_err_def getitem_def
        enumerate_eq_zip upt_conv_Cons np_full_def expand_dims1_def)

lemma collate_keys_2d_1d:
  "collate_keys vb [[(''x'', Nd2 a)], [(''x'', Nd1 xs)]] = Inl ValueError"
  by (simp add: collate_keys_def collate_key_def collate_2d_def bind_err_def getitem_def
        enumerate_eq_zip upt_conv_Cons np_full_def)

text \<open>
  Claim C8, as stated, fails: for two events whose key \<^verbatim>\<open>"x"\<close> holds a one-dimensional and
  a two-dimensional array the exception is numpy's \<^verbatim>\<open>ValueError\<close>, raised by the inner
  \<^verbatim>\<open>np.concatenate\<close>, not a \<open>SchemaError\<close>.
\<close>

theorem CollateSparse_mixed_rank_counterexample:
  "snd (CollateSparse [[(''x'', Nd1 [1, 2])], [(''x'', Nd2 (Arr2 2 [[3, 4]]))]] None)
     = Inl ValueError
   \<and> snd (CollateSparse [[(''x'', Nd1 [1, 2])], [(''x'', Nd2 (Arr2 2 [[3, 4]]))]] None)
     \<noteq> Inl SchemaError"
  by (simp add: CollateSparse_def collate_keys_1d_2d)

text \<open>
  Claim C8, amended. For two events whose key \<^verbatim>\<open>"x"\<close> holds a one-dimensional array in one
  and a two-dimensional array in the other, in either order and whatever the arrays
  contain, \<^verbatim>\<open>CollateSparse\<close> raises \<^verbatim>\<open>ValueError\<close>, unless the constructor of
  \<^verbatim>\<open>VolumeBoundaries\<close> has already raised on the configured boundaries.
\<close>

theorem CollateSparse_mixed_rank:
  "snd (CollateSparse [[(''x'', Nd1 xs)], [(''x'', Nd2 a)]] kw) =
     (case kw of
        None \<Rightarrow> Inl ValueError
      | Some definitions \<Rightarrow>
          (case snd (VolumeBoundaries_init definitions) of
             Inl e \<Rightarrow> Inl e
           | Inr vb \<Rightarrow> Inl ValueError))
   \<and> snd (CollateSparse [[(''x'', Nd2 a)], [(''x'', Nd1 xs)]] kw) =
     (case kw of
        None \<Rightarrow> Inl ValueError
      | Some definitions \<Rightarrow>
          (case snd (VolumeBoundaries_init definitions) of
             Inl e \<Rightarrow> Inl e
           | Inr vb \<Rightarrow> Inl ValueError))"
  by (simp add: CollateSparse_def collate_keys_1d_2d collate_keys_2d_1d
        split: option.splits prod.splits sum.splits)

section \<open>The constructor\<close>

lemma sanity_check_ok:
  "sanity_check ds = (bs, True) \<Longrightarrow> bs = map rewritten ds \<and> list_all accepted ds"
  by (induction ds arbitrary: bs rule: sanity_check.induct)
     (auto simp: rewritten_def accepted_def split: prod.splits if_splits)

lemma sanity_check_accepted:
  "list_all accepted ds \<Longrightarrow> sanity_check ds = (map rewritten ds, True)"
  by (induction ds rule: sanity_check.induct)
     (auto simp: rewritten_def accepted_def split: prod.splits if_splits)

lemma n_boundaries_rewritten:
  "accepted b \<Longrightarrow> n_boundaries (rewritten b) = length (cuts_of b)"
  by (cases b) (auto simp: n_boundaries_def rewritten_def cuts_of_def accepted_def)

lemma length_meshgrid_combo: "length (meshgrid_combo ns) = prod_list ns"
proof -
  have "length (meshgrid_combo ns) = prod_list (rev (drop 2 ns) @ take 2 ns)"
    by (simp add: meshgrid_combo_def Let_def length_product_lists prod_list.eq_foldr o_def)
  also have "\<dots> = prod_list (take 2 ns @ drop 2 ns)"
    by (simp add: prod_list.rev mult.commute del: append_take_drop_id)
  finally show ?thesis by simp
qed

lemma init_Inr:
  assumes "VolumeBoundaries_init ds = (bs, Inr vb)"
  shows "list_all accepted ds" "ds \<noteq> []" "bs = map rewritten ds"
    "vb = \<lparr> vdim = length ds, boundaries = map rewritten ds,
            combo = meshgrid_combo (map (\<lambda>b. n_boundaries b + 1) (map rewritten ds)),
            shifts = map dim_shifts (map rewritten ds) \<rparr>"
proof -
  obtain bs' ok where sc: "sanity_check ds = (bs', ok)"
    by (cases "sanity_check ds")
  with assms have ok: "ok" and ne: "ds \<noteq> []" and bs: "bs' = bs"
    by (auto simp: VolumeBoundaries_init_def split: if_splits)
  from sc ok sanity_check_ok[of ds bs']
  have *: "bs' = map rewritten ds" "list_all accepted ds"
    by auto
  show "list_all accepted ds" by fact
  show "ds \<noteq> []" by fact
  show "bs = map rewritten ds" using * bs by simp
  show "vb = \<lparr> vdim = length ds, boundaries = map rewritten ds,
            combo = meshgrid_combo (map (\<lambda>b. n_boundaries b + 1) (map rewritten ds)),
            shifts = map dim_shifts (map rewritten ds) \<rparr>"
    using assms sc ok ne * by (auto simp: VolumeBoundaries_init_def)
qed

lemma num_volumes_init:
  assumes "VolumeBoundaries_init ds = (bs, Inr vb)"
  shows "num_volumes vb = prod_list (map (\<lambda>b. length (cuts_of b) + 1) ds)"
proof -
  have acc: "list_all accepted ds"
    using init_Inr(1)[OF assms] .
  have "num_volumes vb = prod_list (map (\<lambda>b. n_boundaries (rewritten b) + 1) ds)"
    by (simp add: init_Inr(4)[OF assms] num_volumes_def length_meshgrid_combo o_def)
  also have "map (\<lambda>b. n_boundaries (rewritten b) + 1) ds
             = map (\<lambda>b. length (cuts_of b) + 1) ds"
    using acc by (auto simp: list_all_iff n_boundaries_rewritten)
  finally show ?thesis .
qed

lemma virtual_batch_ids_disjoint:
  fixes e e' :: int
  assumes "e \<noteq> e'"
  shows "set (virtual_batch_ids vb e) \<inter> set (virtual_batch_ids vb e') = {}"
proof -
  have less: "int i + x * int (length (combo vb)) < int j + y * int (length (combo vb))"
    if "x < y" "i < length (combo vb)" for x y :: int and i j :: nat
  proof -
    have "(x + 1) * int (length (combo vb)) \<le> y * int (length (combo vb))"
      using that(1) by (intro mult_right_mono) auto
    then show ?thesis
      using that(2) by (simp add: algebra_simps)
  qed
  have ne: "int k + e * int (length (combo vb)) \<noteq> int k' + e' * int (length (combo vb))"
    if k: "k < length (combo vb)" and k': "k' < length (combo vb)" for k k' :: nat
  proof (cases "e < e'")
    case True
    from less[OF this k, of k'] show ?thesis by simp
  next
    case False
    with assms have "e' < e" by simp
    from less[OF this k', of k] show ?thesis by simp
  qed
  show ?thesis
    using ne by (auto simp: virtual_batch_ids_def num_volumes_def)
qed

text \<open>
  Claim C5. For a boundary specification the constructor accepts, \<^verbatim>\<open>num_volumes()\<close> is the
  product over the dimensions of the number of cuts plus one, and it is 1 when no dimension
  has boundaries; \<^verbatim>\<open>virtual_batch_ids(e)\<close> is the list of the \<^verbatim>\<open>num_volumes()\<close> consecutive
  integers from \<^verbatim>\<open>e * num_volumes()\<close> on, and the lists of two different entries share no
  element.
\<close>

theorem num_volumes_and_virtual_batch_ids:
  assumes "VolumeBoundaries_init definitions = (bs, Inr vb)"
  shows "num_volumes vb = prod_list (map (\<lambda>b. length (cuts_of b) + 1) definitions)
       \<and> ((\<forall>b \<in> set definitions. b = PyNone \<or> b = NoneString) \<longrightarrow> num_volumes vb = 1)
       \<and> virtual_batch_ids vb e
           = map (\<lambda>k. e * int (num_volumes vb) + int k) [0..<num_volumes vb]
       \<and> (e \<noteq> e' \<longrightarrow> set (virtual_batch_ids vb e) \<inter> set (virtual_batch_ids vb e') = {})"
proof -
  have nv: "num_volumes vb = prod_list (map (\<lambda>b. length (cuts_of b) + 1) definitions)"
    using num_volumes_init[OF assms] .
  have one: "num_volumes vb = 1" if "\<forall>b \<in> set definitions. b = PyNone \<or> b = NoneString"
  proof -
    have "map (\<lambda>b. length (cuts_of b) + 1) definitions = map (\<lambda>b. 1) definitions"
      using that by (auto simp: cuts_of_def)
    then show ?thesis
      using nv by (simp add: map_replicate_const)
  qed
  have ids: "virtual_batch_ids vb e
             = map (\<lambda>k. e * int (num_volumes vb) + int k) [0..<num_volumes vb]"
    by (simp add: virtual_batch_ids_def num_volumes_def add.commute)
  show ?thesis
    using nv one ids virtual_batch_ids_disjoint by blast
qed

lemma init_three_dims:
  "VolumeBoundaries_init [CutList [20, 10], NoneString, CutList [5]]
     = ([CutList [10, 20], PyNone, CutList [5]],
        \<comment> \<open>dimension 2 varies slowest, dimension 1 fastest\<close>
        Inr \<lparr> vdim = 3, boundaries = [CutList [10, 20], PyNone, CutList [5]],
              combo = [[0, 0, 0], [1, 0, 0], [2, 0, 0], [0, 0, 1], [1, 0, 1], [2, 0, 1]],
              shifts = [[0, 10, 20], [0], [0, 5]] \<rparr>)"
  by (simp add: VolumeBoundaries_init_def meshgrid_combo_def n_boundaries_def cuts_of_def
        dim_shifts_def upt_conv_Cons)

text \<open>
  Witness for C5: boundaries \<^verbatim>\<open>[[20, 10], 'None', [5]]\<close> give \<open>3 * 1 * 2 = 6\<close> volumes, entry 2
  has the ids 12 to 17, and entries 0 and 1 share none; boundaries \<^verbatim>\<open>[None, 'None']\<close> give
  one volume.
\<close>

theorem num_volumes_and_virtual_batch_ids_witness:
  "(\<exists>bs vb. VolumeBoundaries_init [CutList [20, 10], NoneString, CutList [5]] = (bs, Inr vb)
      \<and> num_volumes vb = 6
      \<and> virtual_batch_ids vb 2 = [12, 13, 14, 15, 16, 17]
      \<and> set (virtual_batch_ids vb 0) \<inter> set (virtual_batch_ids vb 1) = {})
   \<and> (\<exists>bs vb. VolumeBoundaries_init [PyNone, NoneString] = (bs, Inr vb)
      \<and> num_volumes vb = 1)"
proof -
  let ?vb = "\<lparr> vdim = 3, boundaries = [CutList [10, 20], PyNone, CutList [5]],
              combo = [[0, 0, 0], [1, 0, 0], [2, 0, 0], [0, 0, 1], [1, 0, 1], [2, 0, 1]],
              shifts = [[0, 10, 20], [0], [0, 5]] \<rparr>"
  note at_2 = num_volumes_and_virtual_batch_ids[OF init_three_dims, of 2 0]
  note at_0 = num_volumes_and_virtual_batch_ids[OF init_three_dims, of 0 1]
  from at_2 have "num_volumes ?vb
      = prod_list (map (\<lambda>b. length (cuts_of b) + 1)
          [CutList [20, 10], NoneString, CutList [5]])"
    by (rule conjunct1)
  then have six: "num_volumes ?vb = 6"
    by (simp add: cuts_of_def)
  from at_2 have "virtual_batch_ids ?vb 2
      = map (\<lambda>k. 2 * int (num_volumes ?vb) + int k) [0..<num_volumes ?vb]"
    by blast
  then have ids: "virtual_batch_ids ?vb 2 = [12, 13, 14, 15, 16, 17]"
    by (simp only: six) (simp add: upt_conv_Cons)
  from at_0 have "(0::int) \<noteq> 1
      \<longrightarrow> set (virtual_batch_ids ?vb 0) \<inter> set (virtual_batch_ids ?vb 1) = {}"
    by blast
  then have dis: "set (virtual_batch_ids ?vb 0) \<inter> set (virtual_batch_ids ?vb 1) = {}"
    by simp
  have init2: "VolumeBoundaries_init [PyNone, NoneString]
     = ([PyNone, PyNone],
        Inr \<lparr> vdim = 2, boundaries = [PyNone, PyNone], combo = [[0, 0]],
              shifts = [[0], [0]] \<rparr>)"
    by (simp add: VolumeBoundaries_init_def meshgrid_combo_def n_boundaries_def cuts_of_def
          dim_shifts_def upt_conv_Cons)
  from num_volumes_and_virtual_batch_ids[OF init2, of 0 0]
  have "(\<forall>b \<in> set [PyNone, NoneString]. b = PyNone \<or> b = NoneString)
      \<longrightarrow> num_volumes \<lparr> vdim = 2, boundaries = [PyNone, PyNone], combo = [[0, 0]],
              shifts = [[0], [0]] \<rparr> = 1"
    by blast
  then have one: "num_volumes \<lparr> vdim = 2, boundaries = [PyNone, PyNone], combo = [[0, 0]],
              shifts = [[0], [0]] \<rparr> = 1"
    by simp
  show ?thesis
    using init_three_dims six ids dis init2 one by blast
qed

section \<open>translate and untranslate\<close>

lemma fold_add_to_column:
  "fold (\<lambda>n a. add_to_column n (f n) a) ns a
     = Arr2 (ncols a) (map (\<lambda>r. fold (\<lambda>n r. r[n := r ! n + f n]) ns r) (rows a))"
  by (induction ns arbitrary: a) (simp_all add: add_to_column_def o_def)

lemma length_fold_update [simp]:
  "length (fold (\<lambda>n r. r[n := g n (r ! n)]) ns r) = length r"
  by (induction ns arbitrary: r) simp_all

lemma nth_fold_update:
  "distinct ns \<Longrightarrow> j < length r \<Longrightarrow>
     fold (\<lambda>n r. r[n := g n (r ! n)]) ns r ! j
       = (if j \<in> set ns then g j (r ! j) else r ! j)"
proof (induction ns arbitrary: r)
  case Nil
  then show ?case by simp
next
  case (Cons a ns)
  show ?case
  proof (cases "a = j")
    case True
    with Cons show ?thesis by simp
  next
    case False
    with Cons show ?thesis by (simp add: nth_list_update)
  qed
qed




lemma init_docstring_example:
  "VolumeBoundaries_init [CutList [13763 / 10], NoneString, NoneString] =
     ([CutList [13763 / 10], PyNone, PyNone],
      Inr \<lparr> vdim = 3, boundaries = [CutList [13763 / 10], PyNone, PyNone],
            combo = [[0, 0, 0], [1, 0, 0]], shifts = [[0, 13763 / 10], [0], [0]] \<rparr>)"
  by (simp add: VolumeBoundaries_init_def meshgrid_combo_def n_boundaries_def cuts_of_def
        dim_shifts_def upt_conv_Cons)


section \<open>The loop of split, row by row\<close>

lemma meshgrid_combo_bounds:
  assumes "c \<in> set (meshgrid_combo ns)"
  shows "list_all2 (\<lambda>x n. x < n) c ns"
proof -
  let ?order = "rev (drop 2 ns) @ take 2 ns"
  let ?k = "length ns - 2"
  from assms obtain t where t: "t \<in> set (product_lists (map (\<lambda>n. [0..<n]) ?order))"
    and c: "c = drop ?k t @ rev (take ?k t)"
    by (auto simp: meshgrid_combo_def Let_def)
  from t have "list_all2 (\<lambda>x ys. x \<in> set ys) t (map (\<lambda>n. [0..<n]) ?order)"
    by (simp add: product_lists_set)
  moreover have "list_all2 (\<lambda>x ys. x \<in> set ys) t (map (\<lambda>n. [0..<n]) xs)
                   \<Longrightarrow> list_all2 (\<lambda>x n. x < n) t xs" for xs
    by (simp add: list_all2_map2)
  ultimately have all: "list_all2 (\<lambda>x n. x < n) t ?order"
    by blast
  have tk: "take ?k ?order = rev (drop 2 ns)" and dr: "drop ?k ?order = take 2 ns"
    by simp_all
  have "list_all2 (\<lambda>x n. x < n) (drop ?k t) (drop ?k ?order)"
    using all by (rule list_all2_dropI)
  moreover have "list_all2 (\<lambda>x n. x < n) (rev (take ?k t)) (rev (take ?k ?order))"
    using list_all2_takeI[OF all, of ?k] by (simp only: list_all2_rev)
  ultimately have "list_all2 (\<lambda>x n. x < n) (drop ?k t @ rev (take ?k t))
                     (drop ?k ?order @ rev (take ?k ?order))"
    by (rule list_all2_appendI)
  then show ?thesis
    unfolding tk dr c by simp
qed


lemma length_dim_boundaries:
  "length (dim_boundaries b n coords) = n_boundaries b + 1"
  by (simp add: dim_boundaries_def n_boundaries_def)

lemma length_mask_dim_boundaries:
  "m \<in> set (dim_boundaries b n coords) \<Longrightarrow> length m = length coords"
  by (auto simp: dim_boundaries_def split: if_splits)

lemma fold_map2_and:
  assumes "\<forall>n \<in> set ns. length (g n) = N" and "length m0 = N"
  shows "length (fold (\<lambda>n m. map2 (\<and>) m (g n)) ns m0) = N
       \<and> (\<forall>i < N. fold (\<lambda>n m. map2 (\<and>) m (g n)) ns m0 ! i
                     = (m0 ! i \<and> (\<forall>n \<in> set ns. g n ! i)))"
  using assms
proof (induction ns arbitrary: m0)
  case Nil
  then show ?case by simp
next
  case (Cons a ns)
  have len: "length (map2 (\<and>) m0 (g a)) = N"
    using Cons.prems by simp
  have rest: "\<forall>n \<in> set ns. length (g n) = N"
    using Cons.prems by simp
  from Cons.IH[OF rest len] Cons.prems show ?case
    by auto
qed

lemma mask_lengths:
  assumes "n < vdim vb" and "c ! n \<le> n_boundaries (boundaries vb ! n)"
  shows "length (all_boundaries vb coords ! n ! (c ! n)) = length coords"
proof -
  have "all_boundaries vb coords ! n = dim_boundaries (boundaries vb ! n) n coords"
    using assms(1) by (simp add: all_boundaries_def)
  moreover have "c ! n < length (dim_boundaries (boundaries vb ! n) n coords)"
    using assms(2) by (simp add: length_dim_boundaries)
  ultimately show ?thesis
    using length_mask_dim_boundaries[of _ "boundaries vb ! n" n coords] by simp
qed

lemma volume_mask_nth:
  assumes d: "0 < vdim vb"
    and c: "\<forall>n < vdim vb. c ! n \<le> n_boundaries (boundaries vb ! n)"
  shows "length (volume_mask vb (all_boundaries vb coords) c) = length coords"
    and "i < length coords \<Longrightarrow>
          volume_mask vb (all_boundaries vb coords) c ! i
            = (\<forall>n < vdim vb. all_boundaries vb coords ! n ! (c ! n) ! i)"
proof -
  let ?g = "\<lambda>n. all_boundaries vb coords ! n ! (c ! n)"
  have g: "\<forall>n \<in> set [1..<vdim vb]. length (?g n) = length coords"
    using c by (simp add: mask_lengths)
  have g0: "length (?g 0) = length coords"
    using c d by (simp add: mask_lengths)
  note * = fold_map2_and[OF g g0]
  show "length (volume_mask vb (all_boundaries vb coords) c) = length coords"
    using * by (simp add: volume_mask_def)
  show "volume_mask vb (all_boundaries vb coords) c ! i
            = (\<forall>n < vdim vb. all_boundaries vb coords ! n ! (c ! n) ! i)"
    if "i < length coords"
  proof -
    have "volume_mask vb (all_boundaries vb coords) c ! i
            = (?g 0 ! i \<and> (\<forall>n \<in> set [1..<vdim vb]. ?g n ! i))"
      using * that by (simp add: volume_mask_def)
    also have "\<dots> = (\<forall>n < vdim vb. ?g n ! i)"
    proof
      assume A: "?g 0 ! i \<and> (\<forall>n \<in> set [1..<vdim vb]. ?g n ! i)"
      show "\<forall>n < vdim vb. ?g n ! i"
      proof (intro allI impI)
        fix n assume n: "n < vdim vb"
        show "?g n ! i"
        proof (cases "n = 0")
          case True
          with A show ?thesis by simp
        next
          case False
          with n have "n \<in> set [1..<vdim vb]" by simp
          with A show ?thesis by blast
        qed
      qed
    next
      assume "\<forall>n < vdim vb. ?g n ! i"
      then show "?g 0 ! i \<and> (\<forall>n \<in> set [1..<vdim vb]. ?g n ! i)"
        using d by simp
    qed
    finally show ?thesis .
  qed
qed

lemma map2_map2_same:
  "length m = length nc \<Longrightarrow>
     map2 f (map2 g nc m) m = map2 (\<lambda>r sel. f (g r sel) sel) nc m"
  by (induction m nc rule: list_induct2) simp_all

lemma fold_map2_select:
  "length m = length nc \<Longrightarrow>
     fold (\<lambda>n nc. map2 (\<lambda>r sel. if sel then h n r else r) nc m) ns nc
       = map2 (\<lambda>r sel. if sel then fold h ns r else r) nc m"
proof (induction ns arbitrary: nc)
  case Nil
  then have "map2 (\<lambda>r sel. if sel then fold h [] r else r) nc m = nc"
    by (induction m nc rule: list_induct2) simp_all
  then show ?case
    by simp
next
  case (Cons a ns)
  let ?nc = "map2 (\<lambda>r sel. if sel then h a r else r) nc m"
  have len: "length m = length ?nc"
    using Cons.prems by simp
  have eq: "(\<lambda>r sel. if sel then fold h ns (if sel then h a r else r)
                      else (if sel then h a r else r))
            = (\<lambda>r sel. if sel then fold h (a # ns) r else r)"
    by (intro ext) simp
  have "fold (\<lambda>n nc. map2 (\<lambda>r sel. if sel then h n r else r) nc m) (a # ns) nc
        = fold (\<lambda>n nc. map2 (\<lambda>r sel. if sel then h n r else r) nc m) ns ?nc"
    by simp
  also have "\<dots> = map2 (\<lambda>r sel. if sel then fold h ns r else r) ?nc m"
    by (rule Cons.IH[OF len])
  also have "\<dots> = map2 (\<lambda>r sel. if sel then fold h ns (if sel then h a r else r)
                      else (if sel then h a r else r)) nc m"
    by (rule map2_map2_same[OF Cons.prems])
  also have "\<dots> = map2 (\<lambda>r sel. if sel then fold h (a # ns) r else r) nc m"
    by (simp only: eq)
  finally show ?case .
qed

lemma shift_rows_eq:
  "length m = length nc \<Longrightarrow>
     shift_rows vb c m nc = map2 (\<lambda>r sel. if sel then shift_row vb c r else r) nc m"
  unfolding shift_rows_def shift_row_def by (rule fold_map2_select)


lemma split_step_eq:
  assumes "length (volume_mask vb ab c) = N" and "length vids = N"
    and "length batch_ids = N" and "length nc = N"
  shows "split_step vb batch_ids ab (idx, c) (vids, nc) =
           (map (\<lambda>i. if volume_mask vb ab c ! i
                      then to_int32 (of_nat idx + batch_ids ! i * of_nat (num_volumes vb))
                      else vids ! i) [0..<N],
            map (\<lambda>i. if volume_mask vb ab c ! i then shift_row vb c (nc ! i) else nc ! i)
              [0..<N])"
proof -
  let ?m = "volume_mask vb ab c"
  have 1: "map2 (\<lambda>(v, b) sel.
                  if sel then to_int32 (of_nat idx + b * of_nat (num_volumes vb)) else v)
             (zip vids batch_ids) ?m
           = map (\<lambda>i. if ?m ! i
                      then to_int32 (of_nat idx + batch_ids ! i * of_nat (num_volumes vb))
                      else vids ! i) [0..<N]"
    using assms by (intro nth_equalityI) simp_all
  have 2: "map2 (\<lambda>r sel. if sel then shift_row vb c r else r) nc ?m
           = map (\<lambda>i. if ?m ! i then shift_row vb c (nc ! i) else nc ! i) [0..<N]"
    using assms by (intro nth_equalityI) simp_all
  show ?thesis
    using assms 1 2 by (simp add: split_step_def Let_def shift_rows_eq)
qed

lemma split_loop_fold:
  assumes "\<forall>ic \<in> set ics. length (volume_mask vb ab (snd ic)) = N"
    and "length vids = N" and "length batch_ids = N" and "length nc = N"
  shows "fold (split_step vb batch_ids ab) ics (vids, nc) =
           (map (\<lambda>i. row_vid vb ab (batch_ids ! i) i ics (vids ! i)) [0..<N],
            map (\<lambda>i. row_coords vb ab i ics (nc ! i)) [0..<N])"
  using assms
proof (induction ics arbitrary: vids nc)
  case Nil
  have "map ((!) vids) [0..<length vids] = vids" "map ((!) nc) [0..<length nc] = nc"
    by (rule map_nth)+
  with Nil show ?case
    by (simp add: row_vid_def row_coords_def)
next
  case (Cons ic ics)
  obtain idx c where ic: "ic = (idx, c)"
    by (cases ic)
  let ?vids = "map (\<lambda>i. if volume_mask vb ab c ! i
                      then to_int32 (of_nat idx + batch_ids ! i * of_nat (num_volumes vb))
                      else vids ! i) [0..<N]"
  let ?nc = "map (\<lambda>i. if volume_mask vb ab c ! i then shift_row vb c (nc ! i) else nc ! i)
              [0..<N]"
  have m: "length (volume_mask vb ab c) = N"
    using Cons.prems(1) ic by simp
  have step: "split_step vb batch_ids ab ic (vids, nc) = (?vids, ?nc)"
    unfolding ic using m Cons.prems(2,3,4) by (rule split_step_eq)
  have rest: "\<forall>ic \<in> set ics. length (volume_mask vb ab (snd ic)) = N"
    using Cons.prems(1) by simp
  have "fold (split_step vb batch_ids ab) (ic # ics) (vids, nc)
        = fold (split_step vb batch_ids ab) ics (?vids, ?nc)"
    by (simp add: step)
  also have "\<dots> = (map (\<lambda>i. row_vid vb ab (batch_ids ! i) i ics (?vids ! i)) [0..<N],
                    map (\<lambda>i. row_coords vb ab i ics (?nc ! i)) [0..<N])"
    by (rule Cons.IH[OF rest _ Cons.prems(3)]) simp_all
  also have "\<dots> = (map (\<lambda>i. row_vid vb ab (batch_ids ! i) i (ic # ics) (vids ! i)) [0..<N],
                    map (\<lambda>i. row_coords vb ab i (ic # ics) (nc ! i)) [0..<N])"
    by (simp add: row_vid_def row_coords_def ic)
  finally show ?case .
qed


lemma rewritten_cases:
  "accepted b \<Longrightarrow>
     rewritten b = PyNone \<or> (\<exists>cs. rewritten b = CutList cs \<and> cs \<noteq> [] \<and> sorted cs)"
proof (cases b)
  case (CutList cs)
  assume "accepted b"
  with CutList have "cs \<noteq> []"
    by (simp add: accepted_def)
  then have "sort cs \<noteq> []"
    by (metis length_sort length_0_conv)
  with CutList show ?thesis
    by (simp add: rewritten_def)
qed (auto simp: rewritten_def accepted_def)

lemma init_valid:
  assumes "VolumeBoundaries_init ds = (bs, Inr vb)"
  shows "0 < vdim vb"
    and "length (boundaries vb) = vdim vb"
    and "shifts vb = map dim_shifts (boundaries vb)"
    and "\<forall>b \<in> set (boundaries vb).
           b = PyNone \<or> (\<exists>cs. b = CutList cs \<and> cs \<noteq> [] \<and> sorted cs)"
    and "\<forall>c \<in> set (combo vb).
           length c = vdim vb \<and> (\<forall>n < vdim vb. c ! n \<le> n_boundaries (boundaries vb ! n))"
proof -
  note vb = init_Inr(4)[OF assms]
  show "0 < vdim vb"
    using init_Inr(2)[OF assms] by (simp add: vb)
  show "length (boundaries vb) = vdim vb"
    by (simp add: vb)
  show "shifts vb = map dim_shifts (boundaries vb)"
    by (simp add: vb)
  show "\<forall>b \<in> set (boundaries vb).
           b = PyNone \<or> (\<exists>cs. b = CutList cs \<and> cs \<noteq> [] \<and> sorted cs)"
    using init_Inr(1)[OF assms] rewritten_cases by (auto simp: vb list_all_iff)
  show "\<forall>c \<in> set (combo vb).
           length c = vdim vb \<and> (\<forall>n < vdim vb. c ! n \<le> n_boundaries (boundaries vb ! n))"
  proof
    fix c assume "c \<in> set (combo vb)"
    then have "c \<in> set (meshgrid_combo (map (\<lambda>b. n_boundaries b + 1) (map rewritten ds)))"
      by (simp add: vb)
    from meshgrid_combo_bounds[OF this]
    have all: "list_all2 (\<lambda>x n. x < n) c (map (\<lambda>b. n_boundaries b + 1) (map rewritten ds))" .
    then have len: "length c = length ds"
      by (auto dest: list_all2_lengthD)
    have "c ! n \<le> n_boundaries (boundaries vb ! n)" if "n < vdim vb" for n
    proof -
      have "n < length c" using that len by (simp add: vb)
      from list_all2_nthD[OF all this] that show ?thesis
        by (simp add: vb)
    qed
    then show "length c = vdim vb \<and> (\<forall>n < vdim vb. c ! n \<le> n_boundaries (boundaries vb ! n))"
      using len by (simp add: vb)
  qed
qed

lemma split_valid:
  assumes init: "VolumeBoundaries_init ds = (bs, Inr vb)"
    and nc: "ncols voxels = vdim vb + 1"
  shows "split vb voxels =
           (let ab = all_boundaries vb (map tl (rows voxels));
                ics = enumerate 0 (combo vb);
                new_voxels = Arr2 (1 + vdim vb)
                  (map (\<lambda>i. of_int (row_vid vb ab (hd (rows voxels ! i)) i ics 0)
                             # row_coords vb ab i ics (tl (rows voxels ! i)))
                     [0..<length (rows voxels)])
            in Inr (new_voxels, split_perm (vdim vb) new_voxels))"
proof -
  let ?N = "length (rows voxels)"
  let ?coords = "map tl (rows voxels)"
  let ?ab = "all_boundaries vb ?coords"
  let ?ics = "enumerate 0 (combo vb)"
  have masks: "\<forall>ic \<in> set ?ics. length (volume_mask vb ?ab (snd ic)) = ?N"
  proof
    fix ic assume "ic \<in> set ?ics"
    then have "snd ic \<in> snd ` set ?ics"
      by (rule imageI)
    then have "snd ic \<in> set (map snd ?ics)"
      by (simp only: set_map)
    then have "snd ic \<in> set (combo vb)"
      by (simp only: map_snd_enumerate)
    with init_valid(5)[OF init]
    have "\<forall>n < vdim vb. snd ic ! n \<le> n_boundaries (boundaries vb ! n)"
      by blast
    from volume_mask_nth(1)[OF init_valid(1)[OF init] this, of ?coords]
    show "length (volume_mask vb ?ab (snd ic)) = ?N"
      by simp
  qed
  have loop: "split_loop vb voxels
              = (map (\<lambda>i. row_vid vb ?ab (map hd (rows voxels) ! i) i ?ics
                            (replicate ?N 0 ! i)) [0..<?N],
                 map (\<lambda>i. row_coords vb ?ab i ?ics (?coords ! i)) [0..<?N])"
    unfolding split_loop_def Let_def
    by (simp only: length_map) (rule split_loop_fold[OF masks], simp_all)
  have rows: "map2 (\<lambda>v r. of_int v # r)
                (map (\<lambda>i. row_vid vb ?ab (map hd (rows voxels) ! i) i ?ics
                            (replicate ?N 0 ! i)) [0..<?N])
                (map (\<lambda>i. row_coords vb ?ab i ?ics (?coords ! i)) [0..<?N])
              = map (\<lambda>i. of_int (row_vid vb ?ab (hd (rows voxels ! i)) i ?ics 0)
                             # row_coords vb ?ab i ?ics (tl (rows voxels ! i))) [0..<?N]"
    by (intro nth_equalityI) simp_all
  show ?thesis
    using nc by (simp add: split_def loop rows Let_def)
qed

section \<open>split without boundaries\<close>

lemma meshgrid_combo_ones: "meshgrid_combo (replicate d 1) = [replicate d 0]"
proof -
  have "length (meshgrid_combo (replicate d 1)) = 1"
    by (simp add: length_meshgrid_combo)
  then obtain c where c: "meshgrid_combo (replicate d 1) = [c]"
    by (cases "meshgrid_combo (replicate d 1)") auto
  then have "c \<in> set (meshgrid_combo (replicate d 1))"
    by simp
  from meshgrid_combo_bounds[OF this]
  have all: "list_all2 (\<lambda>x n. x < n) c (replicate d (1::nat))" .
  then have len: "length c = d"
    by (auto dest: list_all2_lengthD)
  have "c ! n = 0" if "n < d" for n
    using list_all2_nthD[OF all, of n] that len by simp
  with len have "c = replicate d 0"
    by (intro nth_equalityI) simp_all
  with c show ?thesis
    by simp
qed

lemma init_without_boundaries:
  assumes "ds \<noteq> []" and "\<forall>b \<in> set ds. b = PyNone \<or> b = NoneString"
  shows "VolumeBoundaries_init ds =
           (replicate (length ds) PyNone,
            Inr \<lparr> vdim = length ds, boundaries = replicate (length ds) PyNone,
                  combo = [replicate (length ds) 0],
                  shifts = replicate (length ds) [0] \<rparr>)"
proof -
  have acc: "list_all accepted ds"
    using assms(2) by (auto simp: list_all_iff accepted_def)
  have "rewritten b = PyNone" if "b \<in> set ds" for b
    using assms(2) that by (auto simp: rewritten_def)
  then have "map rewritten ds = map (\<lambda>b. PyNone) ds"
    by simp
  then have rw: "map rewritten ds = replicate (length ds) PyNone"
    by (simp add: map_replicate_const)
  have ones: "meshgrid_combo (replicate (length ds) (Suc 0)) = [replicate (length ds) 0]"
    using meshgrid_combo_ones[of "length ds"] by simp
  show ?thesis
    using assms(1)
    by (simp add: VolumeBoundaries_init_def sanity_check_accepted[OF acc] rw
          n_boundaries_def ones dim_shifts_def)
qed

lemma fold_id:
  "(\<And>n r. n \<in> set ns \<Longrightarrow> h n r = r) \<Longrightarrow> fold h ns r = r"
  by (induction ns arbitrary: r) simp_all


lemma volume_mask_without_boundaries:
  assumes "0 < d" and "i < length coords"
  shows "volume_mask \<lparr> vdim = d, boundaries = replicate d PyNone,
                        combo = [replicate d 0], shifts = replicate d [0] \<rparr>
           (all_boundaries \<lparr> vdim = d, boundaries = replicate d PyNone,
                        combo = [replicate d 0], shifts = replicate d [0] \<rparr> coords)
           (replicate d 0) ! i"
proof -
  let ?vb = "\<lparr> vdim = d, boundaries = replicate d PyNone,
                combo = [replicate d 0], shifts = replicate d [0] \<rparr>"
  have d: "0 < vdim ?vb"
    using assms(1) by simp
  have c: "\<forall>n < vdim ?vb. replicate d 0 ! n \<le> n_boundaries (boundaries ?vb ! n)"
    by simp
  have "all_boundaries ?vb coords ! n ! (replicate d 0 ! n) ! i" if "n < vdim ?vb" for n
    using that assms(2) by (simp add: all_boundaries_def dim_boundaries_def)
  with volume_mask_nth(2)[OF d c assms(2)] show ?thesis
    by blast
qed

lemma shift_row_without_boundaries:
  "shift_row \<lparr> vdim = d, boundaries = replicate d PyNone,
               combo = [replicate d 0], shifts = replicate d [0] \<rparr> (replicate d 0) r = r"
  unfolding shift_row_def
  by (rule fold_id) (simp add: sub_in_row_def volume_shift_def py_int_def)

lemma no_boundaries_split_rows:
  assumes "ds \<noteq> []" and "\<forall>b \<in> set ds. b = PyNone \<or> b = NoneString"
    and "ncols voxels = length ds + 1"
  shows "\<exists>bs vb perm. VolumeBoundaries_init ds = (bs, Inr vb) \<and> num_volumes vb = 1
           \<and> split vb voxels =
               Inr (Arr2 (ncols voxels)
                      (map (\<lambda>r. of_int (to_int32 (0 + hd r * 1)) # tl r) (rows voxels)), perm)"
proof -
  let ?d = "length ds"
  let ?vb = "\<lparr> vdim = ?d, boundaries = replicate ?d PyNone,
                combo = [replicate ?d 0], shifts = replicate ?d [0] \<rparr>"
  let ?ab = "all_boundaries ?vb (map tl (rows voxels))"
  note init = init_without_boundaries[OF assms(1,2)]
  have nc: "ncols voxels = vdim ?vb + 1"
    using assms(3) by simp
  have d: "0 < ?d"
    using assms(1) by simp
  have rows: "map (\<lambda>i. of_int (row_vid ?vb ?ab (hd (rows voxels ! i)) i
                               (enumerate 0 (combo ?vb)) 0)
                      # row_coords ?vb ?ab i (enumerate 0 (combo ?vb)) (tl (rows voxels ! i)))
                [0..<length (rows voxels)]
              = map (\<lambda>r. of_int (to_int32 (0 + hd r * 1)) # tl r) (rows voxels)"
    using volume_mask_without_boundaries[OF d, of _ "map tl (rows voxels)"]
    by (intro nth_equalityI)
       (simp_all add: row_vid_def row_coords_def shift_row_without_boundaries num_volumes_def)
  have "split ?vb voxels
        = Inr (Arr2 (ncols voxels)
                 (map (\<lambda>r. of_int (to_int32 (0 + hd r * 1)) # tl r) (rows voxels)),
               split_perm ?d (Arr2 (ncols voxels)
                 (map (\<lambda>r. of_int (to_int32 (0 + hd r * 1)) # tl r) (rows voxels))))"
    unfolding split_valid[OF init nc] Let_def rows using assms(3) by simp
  moreover have "num_volumes ?vb = 1"
    by (simp add: num_volumes_def)
  ultimately show ?thesis
    using init by blast
qed

lemma to_int32_of_int:
  "- (2 ^ 31) \<le> k \<Longrightarrow> k < 2 ^ 31 \<Longrightarrow> to_int32 (of_int k) = k"
  by (simp add: to_int32_def py_int_def)


text \<open>
  Claim C6. When every dimension of the boundary specification is without boundary
  (\<^verbatim>\<open>None\<close> or \<^verbatim>\<open>'None'\<close>), there is one volume and \<^verbatim>\<open>split\<close> leaves every coordinate as it
  is and replaces column 0 by \<^verbatim>\<open>0 + batch_id * 1\<close> stored as \<^verbatim>\<open>int32\<close>; for integer batch
  ids in the range of \<^verbatim>\<open>int32\<close> the returned array is the input array.
\<close>

theorem split_without_boundaries:
  assumes "definitions \<noteq> []"
    and "\<forall>b \<in> set definitions. b = PyNone \<or> b = NoneString"
    and "ncols voxels = length definitions + 1"
  shows "\<exists>bs vb perm.
           VolumeBoundaries_init definitions = (bs, Inr vb) \<and> num_volumes vb = 1
         \<and> split vb voxels =
             Inr (Arr2 (ncols voxels)
                    (map (\<lambda>r. of_int (to_int32 (0 + hd r * 1)) # tl r) (rows voxels)), perm)
         \<and> (wf_arr2 voxels
              \<and> (\<forall>r \<in> set (rows voxels). \<exists>k. hd r = of_int k \<and> - (2 ^ 31) \<le> k \<and> k < 2 ^ 31)
            \<longrightarrow> split vb voxels = Inr (voxels, perm))"
proof -
  from no_boundaries_split_rows[OF assms]
  obtain bs vb perm where init: "VolumeBoundaries_init definitions = (bs, Inr vb)"
    and nv: "num_volumes vb = 1"
    and sp: "split vb voxels =
               Inr (Arr2 (ncols voxels)
                      (map (\<lambda>r. of_int (to_int32 (0 + hd r * 1)) # tl r) (rows voxels)), perm)"
    by blast
  have "split vb voxels = Inr (voxels, perm)"
    if wf: "wf_arr2 voxels"
      and ints: "\<forall>r \<in> set (rows voxels). \<exists>k. hd r = of_int k \<and> - (2 ^ 31) \<le> k \<and> k < 2 ^ 31"
  proof -
    have "of_int (to_int32 (0 + hd r * 1)) # tl r = r" if r: "r \<in> set (rows voxels)" for r
    proof -
      from wf r assms(3) have "r \<noteq> []"
        by (auto simp: wf_arr2_def list_all_iff)
      then have cons: "hd r # tl r = r"
        by simp
      from ints r obtain k where k: "hd r = of_int k" "- (2 ^ 31) \<le> k" "k < 2 ^ 31"
        by blast
      have "of_int (to_int32 (0 + hd r * 1)) = hd r"
        using k by (simp add: to_int32_of_int)
      with cons show ?thesis
        by simp
    qed
    then have "map (\<lambda>r. of_int (to_int32 (0 + hd r * 1)) # tl r) (rows voxels) = rows voxels"
      by (simp add: map_idI)
    with sp show ?thesis
      by simp
  qed
  with init nv sp show ?thesis
    by blast
qed

text \<open>
  Witness for C6: boundaries \<^verbatim>\<open>[None, 'None']\<close> and two voxels of events 0 and 1.
\<close>

theorem split_without_boundaries_witness:
  "\<exists>bs vb perm.
     VolumeBoundaries_init [PyNone, NoneString] = (bs, Inr vb) \<and> num_volumes vb = 1
   \<and> split vb (Arr2 3 [[0, 5, 7], [1, 3, 2]]) = Inr (Arr2 3 [[0, 5, 7], [1, 3, 2]], perm)"
proof -
  have ne: "[PyNone, NoneString] \<noteq> []"
    by simp
  have none: "\<forall>b \<in> set [PyNone, NoneString]. b = PyNone \<or> b = NoneString"
    by simp
  have nc: "ncols (Arr2 3 [[0, 5, 7], [1, 3, 2]]) = length [PyNone, NoneString] + 1"
    by simp
  have wf: "wf_arr2 (Arr2 3 [[0, 5, 7], [1, 3, 2]])"
    by (simp add: wf_arr2_def)
  have "\<exists>k. (0::rat) = of_int k \<and> - (2 ^ 31) \<le> k \<and> k < 2 ^ 31"
    by (intro exI[of _ 0]) simp
  moreover have "\<exists>k. (1::rat) = of_int k \<and> - (2 ^ 31) \<le> k \<and> k < 2 ^ 31"
    by (intro exI[of _ 1]) simp
  ultimately have ints: "\<forall>r \<in> set (rows (Arr2 3 [[0, 5, 7], [1, 3, 2]])).
                 \<exists>k. hd r = of_int k \<and> - (2 ^ 31) \<le> k \<and> k < 2 ^ 31"
    by simp
  from split_without_boundaries[OF ne none nc] wf ints show ?thesis
    by blast
qed

section \<open>The permutation returned by split\<close>

text \<open>
  Lists of numbers are compared lexicographically (\<open>HOL-Library.List_Lexorder\<close>): the first
  element is the most significant.
\<close>

lemma insort_key_lex:
  fixes f :: "'a \<Rightarrow> 'k::linorder" and g :: "'a \<Rightarrow> 'k list"
  assumes "sorted (map (\<lambda>y. f y # g y) xs)" and "\<forall>y \<in> set xs. g x \<le> g y"
  shows "sorted (map (\<lambda>y. f y # g y) (insort_key f x xs))"
  using assms
proof (induction xs)
  case Nil
  then show ?case by simp
next
  case (Cons a xs)
  show ?case
  proof (cases "f x \<le> f a")
    case True
    have "f x # g x \<le> f a # g a"
      using True Cons.prems(2) by auto
    moreover have "\<forall>y \<in> set xs. f a # g a \<le> f y # g y"
      using Cons.prems(1) by simp
    ultimately have "\<forall>y \<in> set (a # xs). f x # g x \<le> f y # g y"
      by (auto intro: order_trans)
    with True Cons.prems(1) show ?thesis
      by simp
  next
    case False
    have "sorted (map (\<lambda>y. f y # g y) (insort_key f x xs))"
      using Cons.IH Cons.prems by simp
    moreover have "\<forall>y \<in> set (insort_key f x xs). f a # g a \<le> f y # g y"
      using False Cons.prems(1) by (auto simp: set_insort_key)
    ultimately show ?thesis
      using False by simp
  qed
qed

lemma sort_key_lex:
  fixes f :: "'a \<Rightarrow> 'k::linorder" and g :: "'a \<Rightarrow> 'k list"
  assumes "sorted (map g xs)"
  shows "sorted (map (\<lambda>y. f y # g y) (sort_key f xs))"
  using assms
proof (induction xs)
  case Nil
  then show ?case by simp
next
  case (Cons x xs)
  have "sorted (map (\<lambda>y. f y # g y) (sort_key f xs))"
    using Cons by simp
  moreover have "\<forall>y \<in> set (sort_key f xs). g x \<le> g y"
    using Cons.prems by simp
  ultimately show ?case
    by (simp add: insort_key_lex)
qed

lemma fold_sort_key_lex:
  fixes ks :: "'k::linorder list list" and G :: "nat \<Rightarrow> 'k list"
  assumes "sorted (map G p0)"
  shows "sorted (map (\<lambda>i. map (\<lambda>k. k ! i) (rev ks) @ G i)
                   (fold (\<lambda>k p. sort_key (\<lambda>i. k ! i) p) ks p0))"
  using assms
proof (induction ks arbitrary: p0 G)
  case Nil
  then show ?case by simp
next
  case (Cons k ks)
  have "sorted (map (\<lambda>i. k ! i # G i) (sort_key (\<lambda>i. k ! i) p0))"
    using Cons.prems by (rule sort_key_lex)
  from Cons.IH[OF this] show ?case
    by simp
qed

lemma fold_sort_key_perm:
  "set (fold (\<lambda>k p. sort_key (f k) p) ks p0) = set p0
   \<and> distinct (fold (\<lambda>k p. sort_key (f k) p) ks p0) = distinct p0"
  by (induction ks arbitrary: p0) simp_all

lemma lexsort_perm:
  "set (lexsort keys) = {0..<ncols keys} \<and> distinct (lexsort keys)"
  unfolding lexsort_def using fold_sort_key_perm[of "\<lambda>k i. k ! i" "rows keys" "[0..<ncols keys]"]
  by simp

lemma lexsort_sorted:
  "sorted (map (\<lambda>i. map (\<lambda>k. k ! i) (rev (rows keys))) (lexsort keys))"
proof -
  have "sorted (map (\<lambda>i. []::rat list) [0..<ncols keys])"
    by (simp add: sorted_map)
  from fold_sort_key_lex[OF this, of "rows keys"] show ?thesis
    by (simp add: lexsort_def)
qed

lemma lexsort_stable:
  "sorted (map (\<lambda>i. map (\<lambda>k. k ! i) (rev (rows keys)) @ [of_nat i]) (lexsort keys))"
proof -
  have "sorted (map (\<lambda>i. [of_nat i :: rat]) [0..<ncols keys])"
    by (simp add: sorted_map sorted_wrt_iff_nth_less)
  from fold_sort_key_lex[OF this, of "rows keys"] show ?thesis
    by (simp add: lexsort_def)
qed


lemma split_perm_keys:
  assumes "ncols nv = d + 1"
  shows "set (split_perm d nv) = {0..<length (rows nv)}"
    and "distinct (split_perm d nv)"
    and "sorted (map (\<lambda>i. map (\<lambda>j. rows nv ! i ! j) (0 # rev [1..<d + 1])) (split_perm d nv))"
    and "sorted (map (\<lambda>i. map (\<lambda>j. rows nv ! i ! j) (0 # rev [1..<d + 1]) @ [of_nat i])
                   (split_perm d nv))"
proof -
  let ?keys = "select_rows (transpose_arr nv) ([1..<d + 1] @ [0])"
  have nck: "ncols ?keys = length (rows nv)"
    by (simp add: select_rows_def transpose_arr_def)
  have rk: "rows ?keys = map (\<lambda>j. map (\<lambda>r. r ! j) (rows nv)) ([1..<d + 1] @ [0])"
    using assms by (simp add: select_rows_def transpose_arr_def del: upt_Suc)
  show set: "set (split_perm d nv) = {0..<length (rows nv)}"
    and "distinct (split_perm d nv)"
    using lexsort_perm[of ?keys] nck by (simp_all add: split_perm_def)
  have key: "map (\<lambda>k. k ! i) (rev (rows ?keys))
             = map (\<lambda>j. rows nv ! i ! j) (0 # rev [1..<d + 1])"
    if "i \<in> set (split_perm d nv)" for i
  proof -
    from that set have i: "i < length (rows nv)"
      by simp
    have "map (\<lambda>k. k ! i) (rev (map (\<lambda>j. map (\<lambda>r. r ! j) (rows nv)) ([1..<d + 1] @ [0])))
          = map (\<lambda>j. rows nv ! i ! j) (0 # rev [1..<d + 1])"
      using i by (simp add: rev_map o_def del: upt_Suc)
    then show ?thesis
      by (simp only: rk)
  qed
  have "map (\<lambda>i. map (\<lambda>j. rows nv ! i ! j) (0 # rev [1..<d + 1])) (split_perm d nv)
        = map (\<lambda>i. map (\<lambda>k. k ! i) (rev (rows ?keys))) (split_perm d nv)"
    by (rule map_cong[OF refl]) (simp only: key)
  then show "sorted (map (\<lambda>i. map (\<lambda>j. rows nv ! i ! j) (0 # rev [1..<d + 1]))
                       (split_perm d nv))"
    using lexsort_sorted[of ?keys] by (simp only: split_perm_def)
  have "map (\<lambda>i. map (\<lambda>j. rows nv ! i ! j) (0 # rev [1..<d + 1]) @ [of_nat i])
          (split_perm d nv)
        = map (\<lambda>i. map (\<lambda>k. k ! i) (rev (rows ?keys)) @ [of_nat i]) (split_perm d nv)"
    by (rule map_cong[OF refl]) (simp only: key)
  then show "sorted (map (\<lambda>i. map (\<lambda>j. rows nv ! i ! j) (0 # rev [1..<d + 1]) @ [of_nat i])
                       (split_perm d nv))"
    using lexsort_stable[of ?keys] by (simp only: split_perm_def)
qed


lemma split_Inr_ncols:
  "split vb voxels = Inr res \<Longrightarrow> ncols voxels = vdim vb + 1"
  by (auto simp: split_def split: if_splits)

lemma split_example_perm:
  "split \<lparr> vdim = 2, boundaries = [CutList [10], PyNone],
           combo = [[0, 0], [1, 0]], shifts = [[0, 10], [0]] \<rparr>
     (Arr2 3 [[0, 5, 7], [0, 12, 3], [0, 9, 3], [1, 1, 7], [1, 20, 7], [1, 11, 7]])
   = Inr (Arr2 3 [[0, 5, 7], [1, 2, 3], [0, 9, 3], [2, 1, 7], [3, 10, 7], [3, 1, 7]],
          [2, 0, 1, 3, 5, 4])"
  by code_simp

lemma init_one_dim:
  "VolumeBoundaries_init [PyNone] =
     ([PyNone], Inr \<lparr> vdim = 1, boundaries = [PyNone], combo = [[0]], shifts = [[0]] \<rparr>)"
  by code_simp

text \<open>
  Claim C2, as stated, fails. With one dimension and no boundary, the rows \<open>(0, 5)\<close> and
  \<open>(1, 3)\<close> are returned with the permutation \<open>[0, 1]\<close>: the row of batch 0 stays first
  although its coordinate is the larger one. Under the claimed order, with the last
  coordinate most significant and the virtual batch id least significant, the keys
  \<open>[5, 0]\<close> and \<open>[3, 1]\<close> of the permuted rows are not ascending.
\<close>

theorem split_perm_order_counterexample:
  "\<exists>bs vb. VolumeBoundaries_init [PyNone] = (bs, Inr vb)
      \<and> split vb (Arr2 2 [[0, 5], [1, 3]]) = Inr (Arr2 2 [[0, 5], [1, 3]], [0, 1])
      \<and> \<not> sorted (map (\<lambda>i. map (\<lambda>j. [[0, 5], [1, 3 :: rat]] ! i ! j) (rev [1..<1 + 1] @ [0]))
                    [0, 1])"
proof -
  have "split \<lparr> vdim = 1, boundaries = [PyNone], combo = [[0]], shifts = [[0]] \<rparr>
          (Arr2 2 [[0, 5], [1, 3]]) = Inr (Arr2 2 [[0, 5], [1, 3]], [0, 1])"
    by code_simp
  moreover have "\<not> sorted (map (\<lambda>i. map (\<lambda>j. [[0, 5], [1, 3 :: rat]] ! i ! j)
                                  (rev [1..<1 + 1] @ [0])) [0, 1])"
    by simp
  ultimately show ?thesis
    using init_one_dim by blast
qed

text \<open>
  Claim C2, amended. The permutation returned by \<^verbatim>\<open>split\<close> is a permutation of the row
  indices that sorts the output rows lexicographically with the virtual batch id as the
  most significant key, then the last spatial coordinate, down to the first spatial
  coordinate as the least significant key (batch id, z, y, x as the class docstring says);
  rows with equal keys keep their input order. \<^verbatim>\<open>np.lexsort\<close> takes its last key as the
  primary one, and the batch-id column is passed last.
\<close>

theorem split_perm_order:
  assumes "VolumeBoundaries_init definitions = (bs, Inr vb)"
    and "split vb voxels = Inr (new_voxels, perm)"
  shows "length (rows new_voxels) = length (rows voxels)
       \<and> set perm = {0..<length (rows voxels)} \<and> distinct perm
       \<and> sorted (map (\<lambda>i. map (\<lambda>j. rows new_voxels ! i ! j) (0 # rev [1..<vdim vb + 1])) perm)
       \<and> sorted (map (\<lambda>i. map (\<lambda>j. rows new_voxels ! i ! j) (0 # rev [1..<vdim vb + 1])
                             @ [of_nat i]) perm)"
proof -
  have nc: "ncols voxels = vdim vb + 1"
    using assms(2) by (rule split_Inr_ncols)
  from assms(2) have perm: "perm = split_perm (vdim vb) new_voxels"
    and len: "length (rows new_voxels) = length (rows voxels)"
    and ncn: "ncols new_voxels = vdim vb + 1"
    unfolding split_valid[OF assms(1) nc] Let_def by auto
  from split_perm_keys[OF ncn] show ?thesis
    unfolding perm len by blast
qed

text \<open>
  Witness for C2 (amended): the two-volume scenario with y-coordinates 7, 3, 3, 7, 7, 7; the
  keys (virtual batch id, y, x) of the permuted rows are ascending.
\<close>

theorem split_perm_order_witness:
  "VolumeBoundaries_init [CutList [10], PyNone] =
     ([CutList [10], PyNone],
      Inr \<lparr> vdim = 2, boundaries = [CutList [10], PyNone],
            combo = [[0, 0], [1, 0]], shifts = [[0, 10], [0]] \<rparr>)
   \<and> split \<lparr> vdim = 2, boundaries = [CutList [10], PyNone],
           combo = [[0, 0], [1, 0]], shifts = [[0, 10], [0]] \<rparr>
       (Arr2 3 [[0, 5, 7], [0, 12, 3], [0, 9, 3], [1, 1, 7], [1, 20, 7], [1, 11, 7]])
     = Inr (Arr2 3 [[0, 5, 7], [1, 2, 3], [0, 9, 3], [2, 1, 7], [3, 10, 7], [3, 1, 7]],
            [2, 0, 1, 3, 5, 4])
   \<and> sorted [[0, 3, 9], [0, 7, 5], [1, 3, 2], [2, 7, 1], [3, 7, 1], [3, 7, 10 :: rat]]"
  using split_perm_order[OF init_one_cut_2d split_example_perm] init_one_cut_2d split_example_perm
  by simp

section \<open>The shift that is applied\<close>

lemma shift_row_nth:
  "length (shift_row vb c r) = length r"
  "n < vdim vb \<Longrightarrow> n < length r \<Longrightarrow>
     shift_row vb c r ! n = r ! n - of_int (volume_shift vb c n)"
proof -
  have eq: "shift_row vb c r
            = fold (\<lambda>n r. r[n := r ! n - of_int (volume_shift vb c n)]) [0..<vdim vb] r"
    by (simp add: shift_row_def sub_in_row_def)
  show "length (shift_row vb c r) = length r"
    unfolding eq using length_fold_update[where g = "\<lambda>n (x::rat). x - of_int (volume_shift vb c n)"]
    by simp
  show "shift_row vb c r ! n = r ! n - of_int (volume_shift vb c n)"
    if "n < vdim vb" "n < length r"
    unfolding eq
    using nth_fold_update[where g = "\<lambda>n (x::rat). x - of_int (volume_shift vb c n)" and ns = "[0..<vdim vb]",
            OF _ that(2)] that(1)
    by simp
qed

lemma row_coords_nth:
  "length (row_coords vb ab i ics r) = length r"
  "n < vdim vb \<Longrightarrow> n < length r \<Longrightarrow>
     row_coords vb ab i ics r ! n
       = r ! n - of_int (sum_list (map (\<lambda>c. volume_shift vb c n)
                                    (filter (\<lambda>c. volume_mask vb ab c ! i) (map snd ics))))"
proof -
  show len: "length (row_coords vb ab i ics r) = length r" for r
    by (induction ics arbitrary: r) (simp_all add: row_coords_def shift_row_nth(1))
  show "row_coords vb ab i ics r ! n
       = r ! n - of_int (sum_list (map (\<lambda>c. volume_shift vb c n)
                                    (filter (\<lambda>c. volume_mask vb ab c ! i) (map snd ics))))"
    if "n < vdim vb" "n < length r"
    using that(2)
  proof (induction ics arbitrary: r)
    case Nil
    then show ?case by (simp add: row_coords_def)
  next
    case (Cons ic ics)
    have step: "row_coords vb ab i (ic # ics) r
                = row_coords vb ab i ics
                    (if volume_mask vb ab (snd ic) ! i then shift_row vb (snd ic) r else r)"
      by (simp add: row_coords_def)
    show ?case
    proof (cases "volume_mask vb ab (snd ic) ! i")
      case True
      have "n < length (shift_row vb (snd ic) r)"
        using Cons.prems by (simp add: shift_row_nth(1))
      from Cons.IH[OF this] True show ?thesis
        using that(1) Cons.prems by (simp add: step shift_row_nth(2))
    next
      case False
      from Cons.IH[OF Cons.prems] False show ?thesis
        by (simp add: step)
    qed
  qed
qed

lemma dim_shifts_nth:
  assumes "b = PyNone \<or> (\<exists>cs. b = CutList cs \<and> cs \<noteq> [])" and "k \<le> n_boundaries b"
  shows "dim_shifts b ! k = (if k = 0 then 0 else cuts_of b ! (k - 1))"
proof (cases "b = PyNone")
  case True
  with assms(2) show ?thesis
    by (simp add: dim_shifts_def n_boundaries_def)
next
  case False
  with assms(1) obtain cs where b: "b = CutList cs" and ne: "cs \<noteq> []"
    by blast
  have k: "k \<le> length cs"
    using assms(2) b by (simp add: n_boundaries_def cuts_of_def)
  show ?thesis
  proof (cases "k < length cs")
    case True
    then show ?thesis
      by (simp add: dim_shifts_def b cuts_of_def nth_append)
  next
    case False
    with k have "k = length cs" by simp
    with ne show ?thesis
      by (simp add: dim_shifts_def b cuts_of_def nth_append last_conv_nth)
  qed
qed

lemma py_int_of_Ints: "s \<in> \<int> \<Longrightarrow> of_int (py_int s) = s"
  by (auto simp: py_int_def elim!: Ints_cases)

lemma py_int_close: "\<bar>of_int (py_int s) - s\<bar> < 1"
  unfolding py_int_def by (auto simp: abs_if) linarith+


lemma translate_rows:
  assumes "0 \<le> v" and "v < int (num_volumes vb)" and "wf_arr2 x" and "ncols x = vdim vb"
  shows "\<exists>y. translate vb x v = Inr y \<and> length (rows y) = length (rows x)
           \<and> (\<forall>i < length (rows x). \<forall>n < vdim vb.
                 rows y ! i ! n
                   = rows x ! i ! n + of_int (py_int (shifts vb ! n ! (combo vb ! nat v ! n))))"
proof -
  let ?f = "\<lambda>n. of_int (volume_shift vb (combo vb ! nat v) n) :: rat"
  let ?y = "Arr2 (ncols x) (map (\<lambda>r. fold (\<lambda>n r. r[n := r ! n + ?f n]) [0..<vdim vb] r) (rows x))"
  have tr: "translate vb x v = Inr ?y"
    using assms(1,2,4) by (simp add: translate_def fold_add_to_column)
  have "rows ?y ! i ! n = rows x ! i ! n + ?f n" if "i < length (rows x)" "n < vdim vb" for i n
  proof -
    have "length (rows x ! i) = vdim vb"
      using assms(3,4) that(1) by (simp add: wf_arr2_def list_all_length)
    with that(2) have n: "n < length (rows x ! i)"
      by simp
    show ?thesis
      using nth_fold_update[where g = "\<lambda>n (x::rat). x + ?f n" and ns = "[0..<vdim vb]", OF _ n]
        that
      by simp
  qed
  then have "\<forall>i < length (rows x). \<forall>n < vdim vb.
                 rows ?y ! i ! n
                   = rows x ! i ! n + of_int (py_int (shifts vb ! n ! (combo vb ! nat v ! n)))"
    by (simp add: volume_shift_def)
  moreover have "length (rows ?y) = length (rows x)"
    by simp
  ultimately show ?thesis
    using tr by blast
qed

lemma untranslate_rows:
  assumes "0 \<le> v" and "v < int (num_volumes vb)" and "wf_arr2 x" and "ncols x = vdim vb"
  shows "\<exists>y. untranslate vb x v = Inr y \<and> length (rows y) = length (rows x)
           \<and> (\<forall>i < length (rows x). \<forall>n < vdim vb.
                 rows y ! i ! n
                   = rows x ! i ! n - of_int (py_int (shifts vb ! n ! (combo vb ! nat v ! n))))"
proof -
  let ?f = "\<lambda>n. of_int (volume_shift vb (combo vb ! nat v) n) :: rat"
  let ?y = "Arr2 (ncols x) (map (\<lambda>r. fold (\<lambda>n r. r[n := r ! n - ?f n]) [0..<vdim vb] r) (rows x))"
  have tr: "untranslate vb x v = Inr ?y"
    using assms(1,2,4) by (simp add: untranslate_def fold_add_to_column)
  have "rows ?y ! i ! n = rows x ! i ! n - ?f n" if "i < length (rows x)" "n < vdim vb" for i n
  proof -
    have "length (rows x ! i) = vdim vb"
      using assms(3,4) that(1) by (simp add: wf_arr2_def list_all_length)
    with that(2) have n: "n < length (rows x ! i)"
      by simp
    show ?thesis
      using nth_fold_update[where g = "\<lambda>n (x::rat). x - ?f n" and ns = "[0..<vdim vb]", OF _ n]
        that
      by simp
  qed
  then have "\<forall>i < length (rows x). \<forall>n < vdim vb.
                 rows ?y ! i ! n
                   = rows x ! i ! n - of_int (py_int (shifts vb ! n ! (combo vb ! nat v ! n)))"
    by (simp add: volume_shift_def)
  moreover have "length (rows ?y) = length (rows x)"
    by simp
  ultimately show ?thesis
    using tr by blast
qed

lemma split_rows_shift:
  assumes init: "VolumeBoundaries_init ds = (bs, Inr vb)"
    and wf: "wf_arr2 voxels" and nc: "ncols voxels = vdim vb + 1"
  shows "\<exists>nv perm. split vb voxels = Inr (nv, perm)
           \<and> (\<forall>i < length (rows voxels). \<forall>n < vdim vb.
                 rows nv ! i ! (n + 1)
                   = rows voxels ! i ! (n + 1)
                     - of_int (sum_list (map (\<lambda>c. py_int (shifts vb ! n ! (c ! n)))
                         (filter (\<lambda>c. volume_mask vb
                                          (all_boundaries vb (map tl (rows voxels))) c ! i)
                            (combo vb)))))"
proof -
  let ?ab = "all_boundaries vb (map tl (rows voxels))"
  let ?ics = "enumerate 0 (combo vb)"
  let ?nv = "Arr2 (1 + vdim vb)
               (map (\<lambda>i. of_int (row_vid vb ?ab (hd (rows voxels ! i)) i ?ics 0)
                          # row_coords vb ?ab i ?ics (tl (rows voxels ! i)))
                  [0..<length (rows voxels)])"
  have sp: "split vb voxels = Inr (?nv, split_perm (vdim vb) ?nv)"
    unfolding split_valid[OF init nc] Let_def ..
  have "rows ?nv ! i ! (n + 1)
          = rows voxels ! i ! (n + 1)
            - of_int (sum_list (map (\<lambda>c. py_int (shifts vb ! n ! (c ! n)))
                (filter (\<lambda>c. volume_mask vb ?ab c ! i) (combo vb))))"
    if i: "i < length (rows voxels)" and n: "n < vdim vb" for i n
  proof -
    have len: "length (rows voxels ! i) = vdim vb + 1"
      using wf nc i by (simp add: wf_arr2_def list_all_length)
    then have ntl: "n < length (tl (rows voxels ! i))"
      using n by simp
    have "rows ?nv ! i ! (n + 1) = row_coords vb ?ab i ?ics (tl (rows voxels ! i)) ! n"
      using i by simp
    also have "\<dots> = tl (rows voxels ! i) ! n
                 - of_int (sum_list (map (\<lambda>c. volume_shift vb c n)
                     (filter (\<lambda>c. volume_mask vb ?ab c ! i) (map snd ?ics))))"
      by (rule row_coords_nth(2)[OF n ntl])
    also have "tl (rows voxels ! i) ! n = rows voxels ! i ! (n + 1)"
      using ntl by (simp add: nth_tl)
    also have "map snd ?ics = combo vb"
      by (rule map_snd_enumerate)
    finally show ?thesis
      by (simp add: volume_shift_def)
  qed
  with sp show ?thesis
    by blast
qed


text \<open>
  Claim C10. \<^verbatim>\<open>translate\<close>, \<^verbatim>\<open>untranslate\<close> and \<^verbatim>\<open>split\<close> move a coordinate by
  \<^verbatim>\<open>int(shift)\<close>, the stored shift truncated toward zero, not by the shift itself:
  \<^verbatim>\<open>translate\<close> adds and \<^verbatim>\<open>untranslate\<close> subtracts the truncated shift of the volume in
  every dimension, and \<^verbatim>\<open>split\<close> subtracts from a row the truncated shift of every volume
  whose mask selects the row. The stored shift of bin 0 is 0 and that of bin \<open>k > 0\<close> is the
  cut \<open>k - 1\<close> of the sorted cuts. The truncation of an integer value is the value itself,
  and the truncation of any value differs from it by less than 1.
\<close>

theorem applied_shifts_are_truncated:
  assumes "VolumeBoundaries_init definitions = (bs, Inr vb)"
    and "0 \<le> v" and "v < int (num_volumes vb)"
    and "wf_arr2 x" and "ncols x = vdim vb"
    and "wf_arr2 voxels" and "ncols voxels = vdim vb + 1"
  shows "(\<exists>y. translate vb x v = Inr y \<and> length (rows y) = length (rows x)
           \<and> (\<forall>i < length (rows x). \<forall>n < vdim vb.
                 rows y ! i ! n
                   = rows x ! i ! n + of_int (py_int (shifts vb ! n ! (combo vb ! nat v ! n)))))
       \<and> (\<exists>y. untranslate vb x v = Inr y \<and> length (rows y) = length (rows x)
           \<and> (\<forall>i < length (rows x). \<forall>n < vdim vb.
                 rows y ! i ! n
                   = rows x ! i ! n - of_int (py_int (shifts vb ! n ! (combo vb ! nat v ! n)))))
       \<and> (\<exists>nv perm. split vb voxels = Inr (nv, perm)
           \<and> (\<forall>i < length (rows voxels). \<forall>n < vdim vb.
                 rows nv ! i ! (n + 1)
                   = rows voxels ! i ! (n + 1)
                     - of_int (sum_list (map (\<lambda>c. py_int (shifts vb ! n ! (c ! n)))
                         (filter (\<lambda>c. volume_mask vb
                                          (all_boundaries vb (map tl (rows voxels))) c ! i)
                            (combo vb))))))
       \<and> (\<forall>n < vdim vb. \<forall>k \<le> n_boundaries (boundaries vb ! n).
             shifts vb ! n ! k = (if k = 0 then 0 else cuts_of (boundaries vb ! n) ! (k - 1)))
       \<and> (\<forall>s :: rat. s \<in> \<int> \<longrightarrow> of_int (py_int s) = s)
       \<and> (\<forall>s :: rat. \<bar>of_int (py_int s) - s\<bar> < 1)"
proof -
  have table: "shifts vb ! n ! k = (if k = 0 then 0 else cuts_of (boundaries vb ! n) ! (k - 1))"
    if n: "n < vdim vb" and k: "k \<le> n_boundaries (boundaries vb ! n)" for n k
  proof -
    have "boundaries vb ! n \<in> set (boundaries vb)"
      using n init_valid(2)[OF assms(1)] by simp
    with init_valid(4)[OF assms(1)]
    have "boundaries vb ! n = PyNone \<or> (\<exists>cs. boundaries vb ! n = CutList cs \<and> cs \<noteq> [])"
      by blast
    from dim_shifts_nth[OF this k] show ?thesis
      using n init_valid(2)[OF assms(1)] by (simp add: init_valid(3)[OF assms(1)])
  qed
  show ?thesis
    using translate_rows[OF assms(2,3,4,5)] untranslate_rows[OF assms(2,3,4,5)]
      split_rows_shift[OF assms(1,6,7)] table py_int_of_Ints py_int_close
    by blast
qed

text \<open>
  Witness for C10: the boundaries of the docstring, \<^verbatim>\<open>[[1376.3], None, None]\<close>. Volume 1
  moves x by 1376, not by 1376.3: \<^verbatim>\<open>translate\<close> maps 100 to 1476, \<^verbatim>\<open>untranslate\<close> maps 100
  to -1276, and \<^verbatim>\<open>split\<close> maps the voxel at x = 1400 to x = 24 in volume 1.
\<close>

theorem applied_shifts_are_truncated_witness:
  "translate \<lparr> vdim = 3, boundaries = [CutList [13763 / 10], PyNone, PyNone],
               combo = [[0, 0, 0], [1, 0, 0]], shifts = [[0, 13763 / 10], [0], [0]] \<rparr>
     (Arr2 3 [[100, 2, 3]]) 1 = Inr (Arr2 3 [[1476, 2, 3]])
   \<and> untranslate \<lparr> vdim = 3, boundaries = [CutList [13763 / 10], PyNone, PyNone],
               combo = [[0, 0, 0], [1, 0, 0]], shifts = [[0, 13763 / 10], [0], [0]] \<rparr>
     (Arr2 3 [[100, 2, 3]]) 1 = Inr (Arr2 3 [[- 1276, 2, 3]])
   \<and> split \<lparr> vdim = 3, boundaries = [CutList [13763 / 10], PyNone, PyNone],
               combo = [[0, 0, 0], [1, 0, 0]], shifts = [[0, 13763 / 10], [0], [0]] \<rparr>
     (Arr2 4 [[0, 1400, 3, 4]]) = Inr (Arr2 4 [[1, 24, 3, 4]], [0])
   \<and> rat_of_int (py_int 10) = 10"
proof -
  let ?vb = "\<lparr> vdim = 3, boundaries = [CutList [13763 / 10], PyNone, PyNone],
               combo = [[0, 0, 0], [1, 0, 0]], shifts = [[0, 13763 / 10], [0], [0]] \<rparr>"
  have v0: "(0::int) \<le> 1"
    by simp
  have v1: "1 < int (num_volumes ?vb)"
    by (simp add: num_volumes_def)
  have wfx: "wf_arr2 (Arr2 3 [[100, 2, 3]])" and ncx: "ncols (Arr2 3 [[100, 2, 3]]) = vdim ?vb"
    by (simp_all add: wf_arr2_def)
  have wfv: "wf_arr2 (Arr2 4 [[0, 1400, 3, 4]])"
    and ncv: "ncols (Arr2 4 [[0, 1400, 3, 4]]) = vdim ?vb + 1"
    by (simp_all add: wf_arr2_def)
  note inst = applied_shifts_are_truncated[OF init_docstring_example v0 v1 wfx ncx wfv ncv]
  have tr: "translate ?vb (Arr2 3 [[100, 2, 3]]) 1 = Inr (Arr2 3 [[1476, 2, 3]])"
    by code_simp
  have un: "untranslate ?vb (Arr2 3 [[100, 2, 3]]) 1 = Inr (Arr2 3 [[- 1276, 2, 3]])"
    by code_simp
  have sp: "split ?vb (Arr2 4 [[0, 1400, 3, 4]]) = Inr (Arr2 4 [[1, 24, 3, 4]], [0])"
    by code_simp
  from inst have "(10::rat) \<in> \<int> \<longrightarrow> rat_of_int (py_int 10) = 10"
    by blast
  then have "rat_of_int (py_int 10) = 10"
    by simp
  with tr un sp show ?thesis
    by blast
qed

section \<open>Overlapping masks\<close>

text \<open>
  The table of volumes lists every tuple of bin indices once. When no dimension has more
  than one cut, the masks of the volumes select every row exactly once.
\<close>

lemma meshgrid_combo_complete:
  assumes "list_all2 (\<lambda>x n. x < n) c ns"
  shows "c \<in> set (meshgrid_combo ns)"
proof -
  let ?order = "rev (drop 2 ns) @ take 2 ns"
  let ?t = "rev (drop 2 c) @ take 2 c"
  let ?k = "length ns - 2"
  have len: "length c = length ns"
    using assms by (rule list_all2_lengthD)
  have "list_all2 (\<lambda>x n. x < n) (rev (drop 2 c)) (rev (drop 2 ns))"
    using list_all2_dropI[OF assms, of 2] by (simp only: list_all2_rev)
  moreover have "list_all2 (\<lambda>x n. x < n) (take 2 c) (take 2 ns)"
    using assms by (rule list_all2_takeI)
  ultimately have "list_all2 (\<lambda>x n. x < n) ?t ?order"
    by (rule list_all2_appendI)
  moreover have "list_all2 (\<lambda>x n. x < n) t xs
                   \<Longrightarrow> list_all2 (\<lambda>x ys. x \<in> set ys) t (map (\<lambda>n. [0..<n]) xs)" for t xs
    by (simp add: list_all2_map2)
  ultimately have "list_all2 (\<lambda>x ys. x \<in> set ys) ?t (map (\<lambda>n. [0..<n]) ?order)"
    by blast
  then have t: "?t \<in> set (product_lists (map (\<lambda>n. [0..<n]) ?order))"
    by (simp add: product_lists_set)
  have "drop ?k ?t @ rev (take ?k ?t) = c"
    using len by simp
  with t show ?thesis
    unfolding meshgrid_combo_def Let_def by force
qed

lemma distinct_meshgrid_combo: "distinct (meshgrid_combo ns)"
proof -
  let ?order = "rev (drop 2 ns) @ take 2 ns"
  let ?k = "length ns - 2"
  let ?ts = "product_lists (map (\<lambda>n. [0..<n]) ?order)"
  have d: "distinct ?ts"
    by (rule distinct_product_lists) auto
  have inj: "inj_on (\<lambda>t. drop ?k t @ rev (take ?k t)) (set ?ts)"
  proof (rule inj_onI)
    fix t t' assume t: "t \<in> set ?ts" and t': "t' \<in> set ?ts"
      and eq: "drop ?k t @ rev (take ?k t) = drop ?k t' @ rev (take ?k t')"
    have "length t = length t'"
      using in_set_product_lists_length[OF t] in_set_product_lists_length[OF t'] by simp
    with eq have "drop ?k t = drop ?k t'" and "rev (take ?k t) = rev (take ?k t')"
      by simp_all
    then have "take ?k t @ drop ?k t = take ?k t' @ drop ?k t'"
      by simp
    then show "t = t'"
      by simp
  qed
  show ?thesis
    unfolding meshgrid_combo_def Let_def using d inj by (simp add: distinct_map)
qed


lemma single_cut_masks_partition:
  assumes init: "VolumeBoundaries_init ds = (bs, Inr vb)"
    and single: "\<forall>b \<in> set ds. length (cuts_of b) \<le> 1"
    and i: "i < length coords"
  shows "length (filter (\<lambda>c. volume_mask vb (all_boundaries vb coords) c ! i) (combo vb)) = 1"
proof -
  let ?d = "vdim vb"
  let ?B = "\<lambda>n. boundaries vb ! n"
  let ?ab = "all_boundaries vb coords"
  note vb = init_Inr(4)[OF init]
  have d: "?d = length ds"
    by (simp add: vb)
  have Bn: "?B n = PyNone \<or> (\<exists>b. ?B n = CutList [b])" if "n < ?d" for n
  proof -
    have mem: "ds ! n \<in> set ds"
      using that d by simp
    have acc: "accepted (ds ! n)"
      using init_Inr(1)[OF init] mem by (simp add: list_all_iff)
    have le: "length (cuts_of (ds ! n)) \<le> 1"
      using single mem by blast
    have B: "?B n = rewritten (ds ! n)"
      using that d by (simp add: vb)
    show ?thesis
    proof (cases "ds ! n")
      case (CutList cs)
      with acc le obtain b where "cs = [b]"
        by (cases cs) (auto simp: accepted_def cuts_of_def)
      with CutList B show ?thesis
        by (simp add: rewritten_def)
    qed (use acc B in \<open>auto simp: rewritten_def accepted_def\<close>)
  qed
  define cstar where "cstar = map (\<lambda>n. if ?B n = PyNone then 0
                                        else if coords ! i ! n < hd (cuts_of (?B n)) then 0
                                        else (1::nat)) [0..<?d]"
  have len_star: "length cstar = ?d"
    by (simp add: cstar_def)
  have star_nth: "cstar ! n = (if ?B n = PyNone then 0
                               else if coords ! i ! n < hd (cuts_of (?B n)) then 0 else 1)"
    if "n < ?d" for n
    using that by (simp add: cstar_def)
  have "list_all2 (\<lambda>x n. x < n) cstar (map (\<lambda>b. n_boundaries b + 1) (boundaries vb))"
  proof (rule list_all2_all_nthI)
    show "length cstar = length (map (\<lambda>b. n_boundaries b + 1) (boundaries vb))"
      using len_star init_valid(2)[OF init] by simp
  next
    fix n assume "n < length cstar"
    then have n: "n < ?d"
      using len_star by simp
    from Bn[OF n] show "cstar ! n < map (\<lambda>b. n_boundaries b + 1) (boundaries vb) ! n"
      using n init_valid(2)[OF init]
      by (auto simp: star_nth n_boundaries_def cuts_of_def)
  qed
  then have mem: "cstar \<in> set (combo vb)"
    using meshgrid_combo_complete by (simp add: vb)
  have iff: "volume_mask vb ?ab c ! i \<longleftrightarrow> c = cstar" if c: "c \<in> set (combo vb)" for c
  proof -
    from init_valid(5)[OF init] c
    have len: "length c = ?d" and le: "\<forall>n < ?d. c ! n \<le> n_boundaries (?B n)"
      by auto
    have pt: "?ab ! n ! (c ! n) ! i \<longleftrightarrow> c ! n = cstar ! n" if n: "n < ?d" for n
    proof -
      have ab: "?ab ! n = dim_boundaries (?B n) n coords"
        using n by (simp add: all_boundaries_def)
      from Bn[OF n] show ?thesis
      proof
        assume B: "?B n = PyNone"
        with le n have "c ! n = 0"
          by (auto simp: n_boundaries_def)
        with B i show ?thesis
          by (simp add: ab dim_boundaries_def star_nth[OF n])
      next
        assume "\<exists>b. ?B n = CutList [b]"
        then obtain b where B: "?B n = CutList [b]"
          by blast
        with le n have "c ! n = 0 \<or> c ! n = 1"
          by (auto simp: n_boundaries_def cuts_of_def)
        with B i show ?thesis
          by (auto simp: ab dim_boundaries_def star_nth[OF n] cuts_of_def)
      qed
    qed
    have "volume_mask vb ?ab c ! i \<longleftrightarrow> (\<forall>n < ?d. ?ab ! n ! (c ! n) ! i)"
      by (rule volume_mask_nth(2)[OF init_valid(1)[OF init] le i])
    also have "\<dots> \<longleftrightarrow> (\<forall>n < ?d. c ! n = cstar ! n)"
      using pt by simp
    also have "\<dots> \<longleftrightarrow> c = cstar"
      using len len_star by (auto simp: list_eq_iff_nth_eq)
    finally show ?thesis .
  qed
  have "{c. volume_mask vb ?ab c ! i} \<inter> set (combo vb) = {cstar}"
    using iff mem by auto
  moreover have "distinct (combo vb)"
    by (simp add: vb distinct_meshgrid_combo)
  ultimately show ?thesis
    by (simp add: distinct_length_filter)
qed

lemma init_two_cuts:
  "VolumeBoundaries_init [CutList [10, 20]] =
     ([CutList [10, 20]],
      Inr \<lparr> vdim = 1, boundaries = [CutList [10, 20]],
            combo = [[0], [1], [2]], shifts = [[0, 10, 20]] \<rparr>)"
  by code_simp

text \<open>
  Claim C1 says that every voxel row is selected by the conjunction mask of exactly one
  volume, so that it gets one virtual batch id and is shifted by one volume's shifts. It
  does not hold for the code. With two cuts in one dimension, \<^verbatim>\<open>[[10, 20]]\<close>, there
  are three volumes, and the voxel at x = 5 is selected by the mask of volume 0
  (\<^verbatim>\<open>x < 10\<close>) and by the mask of volume 1 (\<^verbatim>\<open>x < 20\<close>): the masks of the volumes sum to 2
  on that row. The loop then overwrites its virtual batch id with that of volume 1 and
  subtracts the shifts of both volumes, 0 and 10, so the row \<open>(0, 5)\<close> becomes \<open>(1, -5)\<close>.
  The mask of bin \<open>i > 0\<close> lacks the lower bound \<^verbatim>\<open>coords >= cut[i-1]\<close> that the shift
  table, which re-zeroes bin \<open>i\<close> at \<^verbatim>\<open>cut[i-1]\<close>, is built for.
\<close>

theorem split_two_cuts_overlap:
  "\<exists>bs vb. VolumeBoundaries_init [CutList [10, 20]] = (bs, Inr vb)
      \<and> num_volumes vb = 3
      \<and> map (volume_mask vb (all_boundaries vb [[5]])) (combo vb)
          = [[True], [True], [False]]
      \<and> split vb (Arr2 2 [[0, 5]]) = Inr (Arr2 2 [[1, - 5]], [0])"
proof -
  let ?vb = "\<lparr> vdim = 1, boundaries = [CutList [10, 20]],
               combo = [[0], [1], [2]], shifts = [[0, 10, 20]] \<rparr>"
  show ?thesis
  proof (intro exI conjI)
    show "VolumeBoundaries_init [CutList [10, 20]] = ([CutList [10, 20]], Inr ?vb)"
      by (rule init_two_cuts)
    show "num_volumes ?vb = 3"
      by code_simp
    show "map (volume_mask ?vb (all_boundaries ?vb [[5]])) (combo ?vb)
          = [[True], [True], [False]]"
      by code_simp
    show "split ?vb (Arr2 2 [[0, 5]]) = Inr (Arr2 2 [[1, - 5]], [0])"
      by code_simp
  qed
qed

section \<open>The caller's boundaries list\<close>







end
